theory Spec2Isabelle
  imports Complex_Main
begin

section \<open>ACR slice position: bar length difference\<close>

text \<open>
  Embedding of \<^verbatim>\<open>hazenlib/tasks/acr_slice_position.py\<close>. Pixel intensities, pixel
  spacings and all derived quantities are modelled as real numbers: the arithmetic of the
  source is read as exact arithmetic, and a NaN written by the source to mark a sample
  as invalid is the value \<open>None\<close> of an option. Array indices and lags are integers.
  Every exception the source can raise is a value \<open>Inl e\<close>. Where the rounding of the
  source's double precision decides a statement, the rounding is written out with
  \<open>fl\<close> below.
\<close>

datatype error = IndexError | ValueError

subsection \<open>Array primitives\<close>

text \<open>Python slice bounds: a negative bound counts from the end, and every bound is
  clipped to the array.\<close>

definition slice_bound :: "nat \<Rightarrow> int \<Rightarrow> nat" where
  "slice_bound n i = (if i < 0 then nat (max 0 (int n + i)) else min n (nat i))"

definition py_slice :: "'a list \<Rightarrow> int \<Rightarrow> int \<Rightarrow> 'a list" where
  "py_slice xs lo hi =
     (let a = slice_bound (length xs) lo; b = slice_bound (length xs) hi
      in take (b - a) (drop a xs))"

text \<open>\<^verbatim>\<open>np.roll(a, k)\<close>: the last \<open>k mod n\<close> elements move to the front.\<close>

definition roll :: "'a list \<Rightarrow> int \<Rightarrow> 'a list" where
  "roll xs k =
     (if xs = [] then []
      else let n = length xs; s = nat (k mod int n)
           in drop (n - s) xs @ take (n - s) xs)"

text \<open>\<^verbatim>\<open>np.max\<close> raises on an empty array.\<close>

fun np_max :: "real list \<Rightarrow> error + real" where
  "np_max [] = Inl ValueError"
| "np_max (x # xs) = Inr (fold max xs x)"

fun np_min :: "real list \<Rightarrow> error + real" where
  "np_min [] = Inl ValueError"
| "np_min (x # xs) = Inr (fold min xs x)"

text \<open>\<^verbatim>\<open>np.argwhere(c)[0]\<close>: the first index where the condition holds.\<close>

definition first_index :: "('a \<Rightarrow> bool) \<Rightarrow> 'a list \<Rightarrow> error + nat" where
  "first_index P xs =
     (let i = length (takeWhile (\<lambda>x. \<not> P x) xs)
      in if i < length xs then Inr i else Inl IndexError)"

text \<open>\<^verbatim>\<open>np.round\<close> and Python's \<^verbatim>\<open>round\<close>: to the nearest integer, a tie to the
  even one.\<close>

definition round_half_even :: "real \<Rightarrow> int" where
  "round_half_even x =
     (let f = \<lfloor>x\<rfloor>; d = x - of_int f
      in if d < 1/2 then f else if 1/2 < d then f + 1
         else if even f then f else f + 1)"

subsection \<open>The circular-shift search (lines 283 to 299)\<close>

definition sentinel :: real where
  "sentinel = 10000000000"

text \<open>\<^verbatim>\<open>lag = np.linspace(-50, 50, 101, dtype=int)\<close>\<close>

definition lags :: "int list" where
  "lags = map (\<lambda>k. int k - 50) [0..<101]"

text \<open>\<^verbatim>\<open>difference[:b] = np.nan\<close> and \<^verbatim>\<open>difference[a:] = np.nan\<close>: the samples at
  the indices \<open>a \<le> i < b\<close> become NaN.\<close>

definition set_nan :: "real option list \<Rightarrow> nat \<Rightarrow> nat \<Rightarrow> real option list" where
  "set_nan d a b =
     map (\<lambda>i. if a \<le> i \<and> i < b then None else d ! i) [0..<length d]"

text \<open>The body of the loop up to the masking: the static right segment minus the
  rolled static left segment, the wrapped samples set to NaN. In the source the two
  segments are slices with the same bounds of two arrays of the same length, so they have
  the same length.\<close>

definition difference :: "real list \<Rightarrow> real list \<Rightarrow> int \<Rightarrow> real option list" where
  "difference static_line_R static_line_L lag_val =
     (let d = map Some (map2 (-) static_line_R (roll static_line_L lag_val));
          n = length d
      in if 0 < lag_val then set_nan d 0 (slice_bound n lag_val)
         else set_nan d (slice_bound n lag_val) n)"

text \<open>\<^verbatim>\<open>np.nanmean\<close>: the mean of the samples that are not NaN.\<close>

definition valid_samples :: "real option list \<Rightarrow> real list" where
  "valid_samples d = map the (filter (\<lambda>v. v \<noteq> None) d)"

definition nanmean :: "real option list \<Rightarrow> real" where
  "nanmean d = sum_list (valid_samples d) / real (length (valid_samples d))"

text \<open>\<^verbatim>\<open>err[k] = 1e10 if np.isnan(difference).all() else np.abs(np.nanmean(difference))\<close>\<close>

definition lag_error :: "real list \<Rightarrow> real list \<Rightarrow> int \<Rightarrow> real" where
  "lag_error static_line_R static_line_L lag_val =
     (let d = difference static_line_R static_line_L lag_val
      in if list_all (\<lambda>v. v = None) d then sentinel else \<bar>nanmean d\<bar>)"

definition lag_errors :: "real list \<Rightarrow> real list \<Rightarrow> real list" where
  "lag_errors static_line_R static_line_L =
     map (lag_error static_line_R static_line_L) lags"

subsection \<open>Interpolation of the line profiles (lines 236 to 246)\<close>

text \<open>\<^verbatim>\<open>np.arange(start, stop, step)\<close> in exact arithmetic; \<open>arange_double\<close> below is
  the same array in double precision.\<close>

definition arange :: "real \<Rightarrow> real \<Rightarrow> real \<Rightarrow> real list" where
  "arange start stop step =
     map (\<lambda>j. start + real j * step) [0..<nat \<lceil>(stop - start) / step\<rceil>]"

definition searchsorted :: "real list \<Rightarrow> real \<Rightarrow> nat" where
  "searchsorted xs v = length (takeWhile (\<lambda>x. x < v) xs)"

text \<open>\<^verbatim>\<open>scipy.interpolate.interp1d(x, y)(x_new)\<close>, linear: the arrays must have the same
  length and two entries at least, a new abscissa outside the range of \<open>x\<close> raises, and
  each value is read off the segment found by a binary search, in exact arithmetic.\<close>

definition interp1d :: "real list \<Rightarrow> real list \<Rightarrow> real list \<Rightarrow> error + real list" where
  "interp1d x y x_new =
     (if length x \<noteq> length y \<or> length x < 2 then Inl ValueError
      else if list_ex (\<lambda>v. v < hd x \<or> last x < v) x_new then Inl ValueError
      else Inr (map (\<lambda>v.
             let hi = min (length x - 1) (max 1 (searchsorted x v)); lo = hi - 1;
                 slope = (y ! hi - y ! lo) / (x ! hi - x ! lo)
             in slope * (v - x ! lo) + y ! lo) x_new))"

definition interp_factor :: real where
  "interp_factor = 5"

text \<open>Both profiles are interpolated over the abscissae of the left one.\<close>

definition interpolate :: "real list \<Rightarrow> real list \<Rightarrow> error + real list" where
  "interpolate line_prof_L line_prof =
     (let x = arange 1 (real (length line_prof_L) + 1) 1;
          new_x = arange 1 (real (length line_prof_L) + 1 / interp_factor) (1 / interp_factor)
      in interp1d x line_prof new_x)"

subsection \<open>Double precision\<close>





subsection \<open>The peak finder\<close>

text \<open>The peak finder takes a signal, a count and an optional minimum height and returns
  peak indices. The functions of the task take it as a parameter.\<close>

type_synonym peak_finder = "real list \<Rightarrow> nat \<Rightarrow> real option \<Rightarrow> nat list"

definition local_maxima :: "real list \<Rightarrow> nat list" where
  "local_maxima data =
     filter (\<lambda>i. data ! (i - 1) < data ! i \<and> data ! (i + 1) < data ! i)
       [1..<length data - 1]"

text \<open>Modelled from the spec: \<^verbatim>\<open>ACRObject.find_n_highest_peaks\<close> is not part of the
  source file. The spec describes it as: given a 1-D signal, a count N and an optional
  minimum-height threshold, it returns up to N indices of local maxima whose height is at
  least the threshold, highest first.\<close>

definition find_n_highest_peaks :: peak_finder where
  "find_n_highest_peaks data n height =
     take n (sort_key (\<lambda>i. - data ! i)
       (filter (\<lambda>i. case height of None \<Rightarrow> True | Some h \<Rightarrow> h \<le> data ! i)
          (local_maxima data)))"

subsection \<open>The shift between two line profiles (lines 248 to 308)\<close>

text \<open>Lines 248 to 278: the difference of the interpolated profiles, its highest peak,
  the window of ten samples on each side of it, the sign, and the two static
  segments. \<^verbatim>\<open>peaks[0]\<close> raises when no peak was found.\<close>

definition static_lines ::
  "peak_finder \<Rightarrow> real list \<Rightarrow> real list \<Rightarrow> error + (int \<times> real list \<times> real list)" where
  "static_lines pf line_prof_L line_prof_R =
     (case interpolate line_prof_L line_prof_L of Inl e \<Rightarrow> Inl e | Inr interp_line_prof_L \<Rightarrow>
     (case interpolate line_prof_L line_prof_R of Inl e \<Rightarrow> Inl e | Inr interp_line_prof_R \<Rightarrow>
        let delta = map2 (-) interp_line_prof_L interp_line_prof_R in
       (case np_max (map abs delta) of Inl e \<Rightarrow> Inl e | Inr mx \<Rightarrow>
       (case pf (map abs delta) 1 (Some (1/2 * mx)) of [] \<Rightarrow> Inl IndexError | p # _ \<Rightarrow>
          let lo = int p - 10; hi = int p + 10 in
         (case np_max (map uminus (py_slice delta lo hi)) of Inl e \<Rightarrow> Inl e | Inr a \<Rightarrow>
         (case np_max (py_slice delta lo hi) of Inl e \<Rightarrow> Inl e | Inr b \<Rightarrow>
            Inr (if a < b then 1 else - 1,
                 py_slice interp_line_prof_L lo hi, py_slice interp_line_prof_R lo hi)))))))"

text \<open>Lines 301 to 305: the first lag whose error is the least strictly positive one,
  negated when the sign is \<open>1\<close>.\<close>

definition selected_lag :: "real list \<Rightarrow> error + int" where
  "selected_lag err =
     (case np_min (filter (\<lambda>e. 0 < e) err) of Inl e \<Rightarrow> Inl e | Inr m \<Rightarrow>
     (case first_index (\<lambda>e. e = m) err of Inl e \<Rightarrow> Inl e | Inr temp \<Rightarrow> Inr (lags ! temp)))"

definition selected_shift :: "int \<Rightarrow> real list \<Rightarrow> error + int" where
  "selected_shift pos err =
     (case selected_lag err of Inl e \<Rightarrow> Inl e
      | Inr l \<Rightarrow> Inr (if pos = 1 then - l else l))"

text \<open>Line 308: \<^verbatim>\<open>dL = pos * np.abs(shift) * (1 / interp_factor) * res[1]\<close>\<close>

definition bar_length_difference ::
  "peak_finder \<Rightarrow> real list \<Rightarrow> real list \<Rightarrow> real \<Rightarrow> error + real" where
  "bar_length_difference pf line_prof_L line_prof_R res_y =
     (case static_lines pf line_prof_L line_prof_R of Inl e \<Rightarrow> Inl e
      | Inr (pos, static_line_L, static_line_R) \<Rightarrow>
       (case selected_shift pos (lag_errors static_line_R static_line_L) of Inl e \<Rightarrow> Inl e
        | Inr shift \<Rightarrow> Inr (of_int pos * of_int \<bar>shift\<bar> * (1 / interp_factor) * res_y)))"


subsection \<open>Images, masks and line profiles\<close>

text \<open>An image is a list of rows of intensities, a mask a list of rows of booleans,
  both rectangular.\<close>

type_synonym image = "real list list"
type_synonym mask = "bool list list"

fun collect :: "('e + 'a) list \<Rightarrow> 'e + 'a list" where
  "collect [] = Inr []"
| "collect (x # xs) =
     (case x of Inl e \<Rightarrow> Inl e
      | Inr v \<Rightarrow> (case collect xs of Inl e \<Rightarrow> Inl e | Inr vs \<Rightarrow> Inr (v # vs)))"

text \<open>Indexing an array with an integer: a negative index counts from the end, an
  index outside the array raises.\<close>

definition np_index :: "'a list \<Rightarrow> int \<Rightarrow> error + 'a" where
  "np_index xs i =
     (let n = int (length xs); j = (if i < 0 then i + n else i)
      in if 0 \<le> j \<and> j < n then Inr (xs ! nat j) else Inl IndexError)"

definition ncols :: "'a list list \<Rightarrow> nat" where
  "ncols m = (case m of [] \<Rightarrow> 0 | r # _ \<Rightarrow> length r)"

text \<open>\<^verbatim>\<open>np.sum(mask, 0) > 0\<close> and \<^verbatim>\<open>np.sum(mask, 1) > 0\<close>\<close>

definition col_any :: "mask \<Rightarrow> bool list" where
  "col_any m = map (\<lambda>j. list_ex (\<lambda>row. row ! j) m) [0..<ncols m]"

definition row_any :: "mask \<Rightarrow> bool list" where
  "row_any m = map (list_ex (\<lambda>b. b)) m"

text \<open>\<^verbatim>\<open>np.argwhere(c)[-1]\<close>: the last index where the condition holds.\<close>

definition last_index :: "('a \<Rightarrow> bool) \<Rightarrow> 'a list \<Rightarrow> error + nat" where
  "last_index P xs =
     (case first_index P (rev xs) of Inl e \<Rightarrow> Inl e | Inr i \<Rightarrow> Inr (length xs - 1 - i))"

text \<open>\<^verbatim>\<open>skimage.measure.profile_line\<close> with \<^verbatim>\<open>mode="constant"\<close> between two pixels of
  one row or of one column: the intensities of the pixels from the first to the second,
  and \<open>0\<close> for a pixel outside the image.\<close>

definition pixel :: "image \<Rightarrow> int \<Rightarrow> int \<Rightarrow> real" where
  "pixel img r c =
     (if 0 \<le> r \<and> r < int (length img) \<and> 0 \<le> c \<and> c < int (length (img ! nat r))
      then img ! nat r ! nat c else 0)"

definition span :: "int \<Rightarrow> int \<Rightarrow> int list" where
  "span a b = (if a \<le> b then [a..b] else rev [b..a])"

definition profile_line_row :: "image \<Rightarrow> int \<Rightarrow> int \<Rightarrow> int \<Rightarrow> real list" where
  "profile_line_row img r c0 c1 = map (\<lambda>c. pixel img r c) (span c0 c1)"

definition profile_line_col :: "image \<Rightarrow> int \<Rightarrow> int \<Rightarrow> int \<Rightarrow> real list" where
  "profile_line_col img r0 r1 c = map (\<lambda>r. pixel img r c) (span r0 r1)"

text \<open>The product of a mask line and a line profile.\<close>

definition masked :: "bool list \<Rightarrow> real list \<Rightarrow> real list" where
  "masked t prof = map2 (\<lambda>b v. if b then v else 0) t prof"

text \<open>\<^verbatim>\<open>np.mean(np.array(rows).T, 1)\<close>: the mean of the profiles, position by
  position.\<close>

definition mean_profile :: "real list list \<Rightarrow> real list" where
  "mean_profile rows =
     map (\<lambda>j. sum_list (map (\<lambda>r. r ! j) rows) / real (length rows)) [0..<ncols rows]"

text \<open>\<^verbatim>\<open>np.abs(np.diff(v))\<close>\<close>

definition abs_diff :: "real list \<Rightarrow> real list" where
  "abs_diff v = map2 (\<lambda>a b. \<bar>b - a\<bar>) v (tl v)"

subsection \<open>Locating the wedges (lines 86 to 206)\<close>

text \<open>Lines 98 to 104 and 148, 155 to 157: the size of the region to investigate, made
  odd. The pixel spacing is positive.\<close>

definition investigate_region :: "real \<Rightarrow> real \<Rightarrow> int" where
  "investigate_region mm res = (let r = \<lceil>mm / res\<rceil> in if r mod 2 = 0 then r + 1 else r)"

text \<open>Lines 106 to 108: the westmost and eastmost columns and the northmost row of the
  mask; \<^verbatim>\<open>[0]\<close> and \<^verbatim>\<open>[-1]\<close> raise on a mask without foreground.\<close>

definition extent :: "mask \<Rightarrow> error + (nat \<times> nat \<times> nat)" where
  "extent m =
     (case first_index (\<lambda>b. b) (col_any m) of Inl e \<Rightarrow> Inl e | Inr w_point \<Rightarrow>
     (case last_index (\<lambda>b. b) (col_any m) of Inl e \<Rightarrow> Inl e | Inr e_point \<Rightarrow>
     (case first_index (\<lambda>b. b) (row_any m) of Inl e \<Rightarrow> Inl e | Inr n_point \<Rightarrow>
        Inr (w_point, e_point, n_point))))"

text \<open>Lines 110 to 129: the masked horizontal profiles of the rows below the northmost
  one, their mean and its absolute first difference.\<close>

definition invest_x :: "image \<Rightarrow> mask \<Rightarrow> real \<Rightarrow> nat \<Rightarrow> nat \<Rightarrow> nat \<Rightarrow> error + real list list" where
  "invest_x img m res_x w_point e_point n_point =
     collect (map (\<lambda>k.
        let y_loc = int n_point + int k in
        (case np_index m y_loc of Inl e \<Rightarrow> Inl e
         | Inr row \<Rightarrow>
             Inr (masked (map (\<lambda>c. row ! c) [w_point..<e_point + 1])
                    (profile_line_row img y_loc (int w_point) (int e_point)))))
        [0..<nat (investigate_region 35 res_x)])"

text \<open>Lines 131 to 136: the two highest peaks in image coordinates; \<^verbatim>\<open>x_locs[1]\<close>
  raises when fewer than two peaks were found. The peak finder is asked for two peaks and
  returns two at most.\<close>

definition x_locs :: "peak_finder \<Rightarrow> image \<Rightarrow> mask \<Rightarrow> real \<Rightarrow> error + (nat \<times> int \<times> int)" where
  "x_locs pf img m res_x =
     (case extent m of Inl e \<Rightarrow> Inl e | Inr (w_point, e_point, n_point) \<Rightarrow>
     (case invest_x img m res_x w_point e_point n_point of Inl e \<Rightarrow> Inl e | Inr rows \<Rightarrow>
     (case pf (abs_diff (mean_profile rows)) 2 None of
        p0 # p1 # _ \<Rightarrow> Inr (n_point, int w_point + int p0, int w_point + int p1)
      | _ \<Rightarrow> Inl IndexError)))"

text \<open>Lines 138 to 144: the rough midpoints of the wedges.\<close>

definition x_pts :: "int \<Rightarrow> int \<Rightarrow> int \<times> int" where
  "x_pts l0 l1 =
     (let width = max l0 l1 - min l0 l1
      in (round_half_even (of_int (min l0 l1) + 1/4 * of_int width),
          round_half_even (of_int (max l0 l1) - 1/4 * of_int width)))"

text \<open>Lines 150 to 153: the supposed row of the end of the wedges.\<close>

definition end_point :: "bool \<Rightarrow> nat \<Rightarrow> real \<Rightarrow> int" where
  "end_point MediumACRPhantom n_point res_y =
     (if MediumACRPhantom then int n_point + round_half_even (35 / res_y)
      else int n_point + round_half_even (50 / res_y))"

text \<open>Lines 159 to 181: the masked vertical profiles of the columns around the middle of
  the two wedges, from the northmost row to the end row.\<close>

definition invest_y ::
  "image \<Rightarrow> mask \<Rightarrow> real \<Rightarrow> bool \<Rightarrow> nat \<Rightarrow> int \<times> int \<Rightarrow> error + real list list" where
  "invest_y img m res_y MediumACRPhantom n_point xp =
     (let y_investigate_region = investigate_region 20 res_y;
          e_pt = end_point MediumACRPhantom n_point res_y
      in collect (map (\<lambda>k.
           let x_loc = int k - y_investigate_region div 2
                         + \<lfloor>(of_int (fst xp) + of_int (snd xp)) / (2::real)\<rfloor> in
           (case collect (map (\<lambda>r. case np_index m r of Inl e \<Rightarrow> Inl e
                                     | Inr row \<Rightarrow> np_index row x_loc)
                            [int n_point..e_pt]) of
              Inl e \<Rightarrow> Inl e
            | Inr c \<Rightarrow> Inr (masked c (profile_line_col img (int n_point) e_pt x_loc))))
           [0..<nat y_investigate_region]))"

text \<open>Lines 184 to 190: the two highest peaks of the vertical signal in image
  coordinates.\<close>

definition y_locs ::
  "peak_finder \<Rightarrow> image \<Rightarrow> mask \<Rightarrow> real \<Rightarrow> bool \<Rightarrow> nat \<Rightarrow> int \<times> int \<Rightarrow> error + (int \<times> int)" where
  "y_locs pf img m res_y MediumACRPhantom n_point xp =
     (case invest_y img m res_y MediumACRPhantom n_point xp of Inl e \<Rightarrow> Inl e | Inr cols \<Rightarrow>
     (case pf (abs_diff (mean_profile cols)) 2 None of
        p0 # p1 # _ \<Rightarrow> Inr (int n_point + int p0 - 1, int n_point + int p1 - 1)
      | _ \<Rightarrow> Inl IndexError))"

text \<open>Lines 192 to 199: the first row of the line profiles.\<close>

definition y_first :: "nat \<Rightarrow> real \<Rightarrow> int \<Rightarrow> int \<Rightarrow> int" where
  "y_first n_point res_y l0 l1 =
     (if of_int (l1 - l0) < 5 / res_y then int n_point + round_half_even (10 / res_y)
      else round_half_even (of_int (min l0 l1) + 1/4 * \<bar>of_int (l1 - l0)\<bar>))"

text \<open>Lines 201 to 204: the second row, 47 mm (35 mm for the medium phantom) from the
  top of the phantom.\<close>

definition y_second :: "bool \<Rightarrow> nat \<Rightarrow> real \<Rightarrow> int \<Rightarrow> int" where
  "y_second MediumACRPhantom n_point res_y y0 =
     (let dist_to_y = \<bar>of_int (int n_point - y0)\<bar> * res_y
      in if MediumACRPhantom then round_half_even (of_int y0 + (35 - dist_to_y) / res_y)
         else round_half_even (of_int y0 + (47 - dist_to_y) / res_y))"

definition find_wedges ::
  "peak_finder \<Rightarrow> bool \<Rightarrow> image \<Rightarrow> mask \<Rightarrow> real \<times> real \<Rightarrow> error + ((int \<times> int) \<times> (int \<times> int))" where
  "find_wedges pf MediumACRPhantom img m res =
     (case x_locs pf img m (fst res) of Inl e \<Rightarrow> Inl e | Inr (n_point, xl0, xl1) \<Rightarrow>
     (case y_locs pf img m (snd res) MediumACRPhantom n_point (x_pts xl0 xl1) of
        Inl e \<Rightarrow> Inl e
      | Inr (yl0, yl1) \<Rightarrow>
          let y0 = y_first n_point (snd res) yl0 yl1
          in Inr (x_pts xl0 xl1, (y0, y_second MediumACRPhantom n_point (snd res) y0))))"

subsection \<open>The measurement of one image (lines 208 to 394)\<close>

definition get_slice_position ::
  "peak_finder \<Rightarrow> bool \<Rightarrow> image \<Rightarrow> mask \<Rightarrow> real \<times> real \<Rightarrow> error + real" where
  "get_slice_position pf MediumACRPhantom img m res =
     (case find_wedges pf MediumACRPhantom img m res of Inl e \<Rightarrow> Inl e
      | Inr ((x0, x1), (y0, y1)) \<Rightarrow>
          bar_length_difference pf (profile_line_col img y0 y1 x0)
            (profile_line_col img y0 y1 x1) (snd res))"

subsection \<open>The task over the two selected slices (lines 51 to 84)\<close>

text \<open>The loop of \<^verbatim>\<open>run\<close> takes the measurement of one image, the text of an error
  and the description of an image as parameters. What the task prints is returned as a
  list. The report images (lines 80 to 82 and 310 to 392) are left out.\<close>

datatype 'e printed = Message string | Traceback 'e

datatype failure = Exception string | EmptySeries

record results =
  files :: "string list"
  measurement :: "string \<rightharpoonup> real"

text \<open>\<^verbatim>\<open>round(result, 2)\<close>\<close>

definition round2 :: "real \<Rightarrow> real" where
  "round2 x = of_int (round_half_even (x * 100)) / 100"

definition could_not :: "string \<Rightarrow> string \<Rightarrow> string" where
  "could_not desc txt =
     ''Could not calculate the bar length difference for '' @ desc @ '' because of : '' @ txt"

fun measure_all ::
  "('d \<Rightarrow> 'e + real) \<Rightarrow> ('e \<Rightarrow> string) \<Rightarrow> ('d \<Rightarrow> string) \<Rightarrow> 'd list \<Rightarrow> (string \<rightharpoonup> real)
     \<Rightarrow> 'e printed list \<times> (failure + (string \<rightharpoonup> real))" where
  "measure_all gsp str img_desc [] meas = ([], Inr meas)"
| "measure_all gsp str img_desc (dcm # dcms) meas =
     (case gsp dcm of
        Inl e \<Rightarrow> ([Message (could_not (img_desc dcm) (str e)), Traceback e],
                  Inl (Exception (str e)))
      | Inr result \<Rightarrow>
          measure_all gsp str img_desc dcms (meas(img_desc dcm \<mapsto> round2 result)))"

definition run ::
  "('d \<Rightarrow> 'e + real) \<Rightarrow> ('e \<Rightarrow> string) \<Rightarrow> ('d \<Rightarrow> string) \<Rightarrow> 'd list
     \<Rightarrow> 'e printed list \<times> (failure + results)" where
  "run gsp str img_desc series =
     (case series of [] \<Rightarrow> ([], Inl EmptySeries)
      | _ \<Rightarrow>
        let dcms = [hd series, last series] in
        (case measure_all gsp str img_desc dcms Map.empty of
           (out, Inl f) \<Rightarrow> (out, Inl f)
         | (out, Inr meas) \<Rightarrow>
             (out, Inr \<lparr>files = map img_desc dcms, measurement = meas\<rparr>)))"

subsection \<open>The statements of the specification\<close>

text \<open>The samples that the specification calls valid at a lag: all but the first
  \<open>lag\<close> ones for a positive lag, all but the last \<open>|lag|\<close> ones for a negative lag.\<close>

definition valid_indices :: "nat \<Rightarrow> int \<Rightarrow> nat list" where
  "valid_indices n lag = (if 0 < lag then [nat lag..<n] else [0..<n - nat (- lag)])"

text \<open>The residual at a sample: the static right segment minus the circularly shifted
  static left segment.\<close>

definition residual :: "real list \<Rightarrow> real list \<Rightarrow> int \<Rightarrow> nat \<Rightarrow> real" where
  "residual static_line_R static_line_L lag i =
     static_line_R ! i - static_line_L ! nat ((int i - lag) mod int (length static_line_L))"

text \<open>The error of a lag in the words of the specification: the mean of the absolute
  residuals over the valid samples, and the sentinel when no sample is valid.\<close>

definition mean_abs_residual :: "real list \<Rightarrow> real list \<Rightarrow> int \<Rightarrow> real" where
  "mean_abs_residual static_line_R static_line_L lag =
     (let v = valid_indices (length static_line_R) lag
      in if v = [] then sentinel
         else sum_list (map (\<lambda>i. \<bar>residual static_line_R static_line_L lag i\<bar>) v)
                / real (length v))"

text \<open>What the source computes: the absolute value of the mean of the residuals.\<close>

definition abs_mean_residual :: "real list \<Rightarrow> real list \<Rightarrow> int \<Rightarrow> real" where
  "abs_mean_residual static_line_R static_line_L lag =
     (let v = valid_indices (length static_line_R) lag
      in if v = [] then sentinel
         else \<bar>sum_list (map (\<lambda>i. residual static_line_R static_line_L lag i) v)
                / real (length v)\<bar>)"

text \<open>Upsampling by the factor 5 with linear interpolation over the index axis: sample
  \<open>5 * k + r\<close> lies \<open>r / 5\<close> of the way from sample \<open>k\<close> to sample \<open>k + 1\<close> of the
  profile.\<close>

definition upsample :: "real list \<Rightarrow> real list" where
  "upsample prof =
     map (\<lambda>j. if j mod 5 = 0 then prof ! (j div 5)
              else prof ! (j div 5)
                     + real (j mod 5) / 5 * (prof ! (j div 5 + 1) - prof ! (j div 5)))
       [0..<5 * (length prof - 1) + 1]"

subsection \<open>Example profiles\<close>

text \<open>Two line profiles with the same bar, one pixel apart, used to run the measurement
  on a concrete input.\<close>

definition ex_L :: "real list" where
  "ex_L = [6, 4, 10, 10, 4, 4]"

definition ex_R :: "real list" where
  "ex_R = [6, 4, 4, 10, 10, 4]"

subsection \<open>Example images and an example series\<close>

text \<open>Three images with a full mask: in the first the two edges of the top row are two
  columns apart, in the second three columns apart; the third, for a pixel spacing of
  2 mm, has a bar whose southern edge (a step of 9 at row 9) is stronger than its
  northern edge (a step of 6 at row 3).\<close>

definition ex_img :: image where
  "ex_img = [[0, 0, 6, 6, 0, 0],
             [4, 4, 4, 4, 4, 4],
             [10, 10, 10, 10, 10, 10],
             [10, 10, 10, 10, 10, 10],
             [4, 4, 4, 4, 4, 4],
             [4, 4, 4, 4, 4, 4]]"

definition ex_mask :: mask where
  "ex_mask = replicate 6 (replicate 6 True)"

definition ex_img_wide :: image where
  "ex_img_wide = [[0, 0, 6, 6, 6, 0, 0],
                  [4, 4, 4, 4, 4, 4, 4],
                  [10, 10, 10, 10, 10, 10, 10],
                  [10, 10, 10, 10, 10, 10, 10],
                  [4, 4, 4, 4, 4, 4, 4],
                  [4, 4, 4, 4, 4, 4, 4]]"

definition ex_img_south :: image where
  "ex_img_south = [[0, 0, 0, 0, 6, 6, 6, 6, 6, 0, 0], replicate 11 3, replicate 11 3]
                  @ replicate 6 (replicate 11 9) @ replicate 17 (replicate 11 0)"

definition ex_mask_tall :: mask where
  "ex_mask_tall = replicate 26 (replicate 11 True)"

text \<open>The second image with the bar of column 3 one row lower: the line profiles
  through the columns 2 and 3 are the two example profiles.\<close>

definition ex_img_edge :: image where
  "ex_img_edge = [[0, 0, 6, 6, 6, 0, 0],
                  [4, 4, 4, 4, 4, 4, 4],
                  [10, 10, 10, 4, 10, 10, 10],
                  [10, 10, 10, 10, 10, 10, 10],
                  [4, 4, 4, 10, 4, 4, 4],
                  [4, 4, 4, 4, 4, 4, 4]]"

definition ex_mask_wide :: mask where
  "ex_mask_wide = replicate 6 (replicate 7 True)"

text \<open>A series of three images, identified by numbers, with descriptions, error texts
  and two measurement functions: one that succeeds and one that fails on the last
  image.\<close>

definition ex_desc :: "nat \<Rightarrow> string" where
  "ex_desc d = (if d = 0 then ''ACR_1_1'' else ''ACR_1_11'')"

definition ex_text :: "error \<Rightarrow> string" where
  "ex_text e = (case e of IndexError \<Rightarrow> ''index 0 is out of bounds'' | ValueError \<Rightarrow> ''zero-size array'')"

definition ex_measure_ok :: "nat \<Rightarrow> error + real" where
  "ex_measure_ok d = Inr (if d = 0 then 1233 / 1000 else - (787 / 1000))"

definition ex_measure_fail :: "nat \<Rightarrow> error + real" where
  "ex_measure_fail d = (if d = 0 then Inr (1233 / 1000) else Inl IndexError)"

section \<open>Properties of the circular-shift search\<close>

lemma length_roll: "length (roll xs k) = length xs"
  by (auto simp: roll_def Let_def)

lemma roll_nth:
  assumes "i < length xs"
  shows "roll xs k ! i = xs ! nat ((int i - k) mod int (length xs))"
proof -
  let ?n = "length xs"
  let ?s = "nat (k mod int ?n)"
  have n0: "0 < ?n" using assms by auto
  have s: "?s < ?n" using n0 by (simp add: nat_less_iff)
  have ne: "xs \<noteq> []" using assms by auto
  show ?thesis
  proof (cases "i < ?s")
    case True
    have "roll xs k ! i = xs ! (?n - ?s + i)"
      using True s ne by (simp add: roll_def Let_def nth_append)
    moreover have "(int i - k) mod int ?n = int (?n - ?s + i)"
    proof -
      have "(int i - k) mod int ?n = (int i - k mod int ?n) mod int ?n"
        by (simp add: mod_diff_right_eq)
      also have "\<dots> = (int i - int ?s) mod int ?n" using n0 by simp
      also have "\<dots> = (int i - int ?s + int ?n) mod int ?n" by simp
      also have "\<dots> = int i - int ?s + int ?n"
        using True s by (intro mod_pos_pos_trivial) auto
      finally show ?thesis using s by (simp add: of_nat_diff)
    qed
    ultimately show ?thesis by (simp only: nat_int)
  next
    case False
    have "roll xs k ! i = xs ! (i - ?s)"
      using False s ne assms by (auto simp: roll_def Let_def nth_append)
    moreover have "(int i - k) mod int ?n = int (i - ?s)"
    proof -
      have "(int i - k) mod int ?n = (int i - k mod int ?n) mod int ?n"
        by (simp add: mod_diff_right_eq)
      also have "\<dots> = (int i - int ?s) mod int ?n" using n0 by simp
      also have "\<dots> = int i - int ?s"
        using False s assms by (intro mod_pos_pos_trivial) auto
      finally show ?thesis using False by (simp add: of_nat_diff)
    qed
    ultimately show ?thesis by (simp only: nat_int)
  qed
qed

lemma length_difference:
  "length (difference sR sL lag) = min (length sR) (length sL)"
  by (simp add: difference_def Let_def set_nan_def length_roll)

lemma difference_nth:
  assumes "length sL = length sR" "i < length sR"
  shows "difference sR sL lag ! i =
     (if (if 0 < lag then i < slice_bound (length sR) lag else slice_bound (length sR) lag \<le> i)
      then None else Some (residual sR sL lag i))"
  using assms
  by (simp add: difference_def Let_def set_nan_def length_roll roll_nth residual_def)

lemma lag_error_at_zero: "lag_error sR sL 0 = sentinel"
  by (simp add: lag_error_def difference_def Let_def set_nan_def slice_bound_def list_all_iff)


lemma difference_eq_map:
  assumes "length sL = length sR"
  shows "difference sR sL lag =
     map (\<lambda>i. if (if 0 < lag then i < slice_bound (length sR) lag
                    else slice_bound (length sR) lag \<le> i)
               then None else Some (residual sR sL lag i)) [0..<length sR]"
  by (rule nth_equalityI) (simp_all add: length_difference assms difference_nth)

lemma valid_samples_map:
  "valid_samples (map (\<lambda>i. if P i then None else Some (f i)) xs) =
     map f (filter (\<lambda>i. \<not> P i) xs)"
  by (induction xs) (simp_all add: valid_samples_def)

lemma all_nan_map:
  "list_all (\<lambda>v. v = None) (map (\<lambda>i. if P i then None else Some (f i)) xs) =
     (filter (\<lambda>i. \<not> P i) xs = [])"
  by (induction xs) simp_all

lemma filter_upt_ge: "b \<le> n \<Longrightarrow> filter (\<lambda>i. \<not> i < b) [0..<n] = [b..<n]"
proof -
  assume b: "b \<le> n"
  have "[0..<n] = [0..<b] @ [b..<n]"
    using b by (metis le_add_diff_inverse upt_add_eq_append zero_le)
  moreover have "filter (\<lambda>i. \<not> i < b) [0..<b] = []" by (simp add: filter_empty_conv)
  moreover have "filter (\<lambda>i. \<not> i < b) [b..<n] = [b..<n]" by (simp add: filter_id_conv)
  ultimately show ?thesis by simp
qed

lemma filter_upt_lt: "a \<le> n \<Longrightarrow> filter (\<lambda>i. \<not> a \<le> i) [0..<n] = [0..<a]"
proof -
  assume a: "a \<le> n"
  have "[0..<n] = [0..<a] @ [a..<n]"
    using a by (metis le_add_diff_inverse upt_add_eq_append zero_le)
  moreover have "filter (\<lambda>i. \<not> a \<le> i) [0..<a] = [0..<a]" by (simp add: filter_id_conv)
  moreover have "filter (\<lambda>i. \<not> a \<le> i) [a..<n] = []" by (simp add: filter_empty_conv)
  ultimately show ?thesis by simp
qed

lemma slice_bound_le: "slice_bound n i \<le> n"
  by (auto simp: slice_bound_def)

lemma unmasked_indices:
  assumes "lag \<noteq> 0"
  shows "filter (\<lambda>i. \<not> (if 0 < lag then i < slice_bound n lag else slice_bound n lag \<le> i))
           [0..<n] = valid_indices n lag"
proof (cases "0 < lag")
  case True
  have "filter (\<lambda>i. \<not> i < slice_bound n lag) [0..<n] = [slice_bound n lag..<n]"
    by (rule filter_upt_ge) (rule slice_bound_le)
  moreover have "[slice_bound n lag..<n] = [nat lag..<n]"
    using True by (cases "nat lag \<le> n") (simp_all add: slice_bound_def)
  ultimately show ?thesis using True by (simp add: valid_indices_def)
next
  case False
  then have neg: "lag < 0" using assms by simp
  have "filter (\<lambda>i. \<not> slice_bound n lag \<le> i) [0..<n] = [0..<slice_bound n lag]"
    by (rule filter_upt_lt) (rule slice_bound_le)
  moreover have "slice_bound n lag = n - nat (- lag)"
    using neg by (simp add: slice_bound_def)
  ultimately show ?thesis using False by (simp add: valid_indices_def)
qed

lemma lag_error_nonzero:
  assumes "length sL = length sR" "lag \<noteq> 0"
  shows "lag_error sR sL lag = abs_mean_residual sR sL lag"
  unfolding lag_error_def abs_mean_residual_def Let_def nanmean_def
    difference_eq_map[OF assms(1)] valid_samples_map all_nan_map unmasked_indices[OF assms(2)]
  by simp

lemma difference_None_iff:
  assumes "length sL = length sR" "lag \<noteq> 0" "i < length sR"
  shows "(difference sR sL lag ! i = None) = (i \<notin> set (valid_indices (length sR) lag))"
proof -
  have "set (valid_indices (length sR) lag) =
        {i \<in> set [0..<length sR]. \<not> (if 0 < lag then i < slice_bound (length sR) lag
                           else slice_bound (length sR) lag \<le> i)}"
    unfolding unmasked_indices[OF assms(2), symmetric] by simp
  then show ?thesis using assms by (simp add: difference_nth)
qed

lemma length_lags: "length lags = 101"
  by (simp add: lags_def)

lemma lags_nth: "k < 101 \<Longrightarrow> lags ! k = int k - 50"
  by (simp add: lags_def)

lemma lag_errors_nth: "k < 101 \<Longrightarrow> lag_errors sR sL ! k = lag_error sR sL (int k - 50)"
  by (simp add: lag_errors_def length_lags lags_nth)

text \<open>Claim C1, as amended. For every lag of the search other than 0 and two static
  segments of the same length, the error of the lag is the absolute value of the mean of
  the residuals (static right minus circularly shifted static left) over the valid
  samples, the invalid samples being the first \<open>lag\<close> ones for a positive lag and the
  last \<open>|lag|\<close> ones for a negative lag; when no sample is valid the error is the
  sentinel.\<close>

theorem lag_error_abs_mean:
  assumes "length sL = length sR" "k < 101" "k \<noteq> 50"
  shows "lag_errors sR sL ! k = abs_mean_residual sR sL (lags ! k) \<and>
         (\<forall>i<length sR. (difference sR sL (lags ! k) ! i = None)
                           = (i \<notin> set (valid_indices (length sR) (lags ! k))))"
proof -
  have nz: "lags ! k \<noteq> 0" using assms(2,3) by (simp add: lags_nth)
  show ?thesis
    using assms nz
    by (simp add: lag_errors_nth lags_nth lag_error_nonzero difference_None_iff)
qed

text \<open>Unfolding rules for evaluating the search on concrete segments.\<close>

lemmas ev = lag_error_def difference_def roll_def set_nan_def slice_bound_def nanmean_def valid_samples_def sentinel_def upt_rec[where j="numeral n" for n] Let_def

theorem lag_error_abs_mean_witness:
  "length [0, 0, 0 :: real] = length [0, 1, - 1 :: real] \<and> (51::nat) < 101 \<and> (51::nat) \<noteq> 50 \<and>
   lag_errors [0, 1, - 1] [0, 0, 0] ! 51 = 0 \<and>
   difference [0, 1, - 1] [0, 0, 0] (lags ! 51) = [None, Some 1, Some (- 1)]"
  using lag_error_abs_mean[of "[0, 0, 0]" "[0, 1, - 1]" 51]
  by (simp add: lags_nth abs_mean_residual_def valid_indices_def residual_def ev)

text \<open>Claim C1 as stated fails: at lag 1 the residuals \<open>1\<close> and \<open>- 1\<close> are valid, the
  source's error is \<open>|mean| = 0\<close> and the mean of the absolute residuals is \<open>1\<close>.\<close>

theorem mean_abs_residual_counterexample:
  "lags ! 51 = 1 \<and> lag_errors [0, 1, - 1] [0, 0, 0] ! 51 = 0 \<and>
   mean_abs_residual [0, 1, - 1] [0, 0, 0] (lags ! 51) = 1"
  by (simp add: lags_nth lag_errors_nth mean_abs_residual_def valid_indices_def residual_def ev)

text \<open>Claim C9. The error of lag 0 is the sentinel \<open>1e10\<close> for all static segments:
  the branch for a lag that is not positive sets every sample from index 0 on to NaN.\<close>

theorem lag_zero_sentinel:
  "lags ! 50 = 0 \<and> lag_errors sR sL ! 50 = sentinel \<and>
   list_all (\<lambda>v. v = None) (difference sR sL 0) \<and> sentinel = 10 ^ 10"
proof -
  have "lag_errors sR sL ! 50 = lag_error sR sL 0"
    by (simp add: lag_errors_nth)
  moreover have "list_all (\<lambda>v. v = None) (difference sR sL 0)"
    by (simp add: difference_def Let_def set_nan_def slice_bound_def list_all_iff)
  ultimately show ?thesis
    by (simp add: lags_nth lag_error_def Let_def sentinel_def)
qed

theorem lag_zero_sentinel_witness:
  "lag_errors [0, 1, - 1] [0, 0, 0] ! 50 = 10 ^ 10"
  using lag_zero_sentinel[of "[0, 1, - 1]" "[0, 0, 0]"] by simp


section \<open>Properties of the selection of the lag\<close>

lemma np_min_Inr:
  assumes "np_min xs = Inr m"
  shows "m \<in> set xs \<and> (\<forall>x\<in>set xs. m \<le> x)"
proof (cases xs)
  case Nil
  then show ?thesis using assms by simp
next
  case (Cons y ys)
  then have "m = Min (set xs)" using assms Min.set_eq_fold[of y ys] by simp
  then show ?thesis using Cons by (metis List.finite_set Min_in Min_le list.distinct(1) set_empty)
qed

lemma np_max_Inr:
  assumes "np_max xs = Inr m"
  shows "m \<in> set xs \<and> (\<forall>x\<in>set xs. x \<le> m)"
proof (cases xs)
  case Nil
  then show ?thesis using assms by simp
next
  case (Cons y ys)
  then have "m = Max (set xs)" using assms Max.set_eq_fold[of y ys] by simp
  then show ?thesis using Cons by (metis List.finite_set Max_in Max_ge list.distinct(1) set_empty)
qed

lemma first_index_Inr:
  assumes "first_index P xs = Inr i"
  shows "i < length xs \<and> P (xs ! i) \<and> (\<forall>j<i. \<not> P (xs ! j))"
proof -
  let ?t = "takeWhile (\<lambda>x. \<not> P x) xs"
  have i: "i = length ?t" and lt: "length ?t < length xs"
    using assms by (auto simp: first_index_def Let_def split: if_splits)
  have "P (xs ! length ?t)" using nth_length_takeWhile[OF lt] by simp
  moreover have "\<not> P (xs ! j)" if "j < length ?t" for j
  proof -
    have "?t ! j \<in> set ?t" using that by simp
    then have "\<not> P (?t ! j)" by (rule set_takeWhileD[THEN conjunct2])
    then show ?thesis using that by (simp add: takeWhile_nth)
  qed
  ultimately show ?thesis using i lt by simp
qed

lemma length_lag_errors: "length (lag_errors sR sL) = 101"
  by (simp add: lag_errors_def length_lags)

lemma selected_lag_Inr:
  assumes "selected_lag err = Inr l" "length err = 101"
  shows "\<exists>temp<101. l = lags ! temp \<and> 0 < err ! temp \<and>
           (\<forall>j<101. 0 < err ! j \<longrightarrow> err ! temp \<le> err ! j) \<and>
           (\<forall>j<temp. err ! j \<noteq> err ! temp)"
proof -
  from assms(1) obtain m temp where m: "np_min (filter (\<lambda>e. 0 < e) err) = Inr m"
    and t: "first_index (\<lambda>e. e = m) err = Inr temp" and l: "l = lags ! temp"
    by (auto simp: selected_lag_def split: sum.splits)
  from np_min_Inr[OF m] have mpos: "0 < m" and mle: "\<forall>x\<in>set err. 0 < x \<longrightarrow> m \<le> x"
    by auto
  from first_index_Inr[OF t] have tl: "temp < length err" and te: "err ! temp = m"
    and tf: "\<forall>j<temp. err ! j \<noteq> m" by auto
  show ?thesis
    using l mpos mle tl te tf assms(2) by (intro exI[of _ temp]) auto
qed

lemma selected_lag_bounds:
  assumes "selected_lag err = Inr l" "length err = 101"
  shows "- 50 \<le> l \<and> l \<le> 50"
proof -
  from selected_lag_Inr[OF assms] obtain temp where "temp < 101" "l = lags ! temp" by blast
  then show ?thesis by (simp add: lags_nth)
qed

lemma bar_length_difference_Inr:
  assumes "bar_length_difference pf L R res_y = Inr d"
  shows "\<exists>pos sL sR l. static_lines pf L R = Inr (pos, sL, sR) \<and>
           selected_lag (lag_errors sR sL) = Inr l \<and>
           d = of_int pos * of_int \<bar>if pos = 1 then - l else l\<bar> * (1 / 5) * res_y"
  using assms
  by (auto simp: bar_length_difference_def selected_shift_def interp_factor_def
      split: sum.splits prod.splits)

lemma static_lines_pos:
  assumes "static_lines pf L R = Inr (pos, sL, sR)"
  shows "pos = 1 \<or> pos = - 1"
  using assms
  by (auto simp: static_lines_def Let_def split: sum.splits list.splits if_splits)

lemma bar_length_difference_bound:
  assumes "bar_length_difference pf L R res_y = Inr d" "0 \<le> res_y"
  shows "\<bar>d\<bar> \<le> 10 * res_y"
proof -
  from bar_length_difference_Inr[OF assms(1)] obtain pos sL sR l where
    s: "static_lines pf L R = Inr (pos, sL, sR)" and
    l: "selected_lag (lag_errors sR sL) = Inr l" and
    d: "d = of_int pos * of_int \<bar>if pos = 1 then - l else l\<bar> * (1 / 5) * res_y" by blast
  have b: "\<bar>l\<bar> \<le> 50" using selected_lag_bounds[OF l length_lag_errors] by linarith
  have p: "\<bar>pos\<bar> = 1" using static_lines_pos[OF s] by auto
  have "\<bar>d\<bar> = of_int \<bar>pos\<bar> * of_int \<bar>l\<bar> * (1 / 5) * res_y"
    unfolding d using assms(2) by (simp add: abs_mult)
  also have "\<dots> = of_int \<bar>l\<bar> * (1 / 5) * res_y" using p by simp
  also have "\<dots> \<le> 50 * (1 / 5) * res_y"
  proof -
    have "(of_int \<bar>l\<bar> :: real) \<le> 50" using b by (metis of_int_le_iff of_int_numeral)
    then show ?thesis using assms(2) by (intro mult_right_mono) auto
  qed
  finally show ?thesis by simp
qed


section \<open>Properties of the interpolation\<close>

lemma arange_unit: "arange 1 (real n + 1) 1 = map (\<lambda>j. 1 + real j) [0..<n]"
  by (simp add: arange_def)

lemma arange_fifth:
  assumes "1 \<le> n"
  shows "arange 1 (real n + 1 / 5) (1 / 5) = map (\<lambda>j. 1 + real j * (1 / 5)) [0..<5 * (n - 1) + 1]"
proof -
  have "(real n + 1 / 5 - 1) / (1 / 5) = real (5 * (n - 1) + 1)"
    using assms by (simp add: of_nat_diff field_simps)
  then have "nat \<lceil>(real n + 1 / 5 - 1) / (1 / 5)\<rceil> = 5 * (n - 1) + 1"
    by (simp only: ceiling_of_nat nat_int)
  then show ?thesis by (simp only: arange_def)
qed

lemma takeWhile_grid:
  assumes "m \<le> n" "\<forall>i<m. P (f i)" "m < n \<longrightarrow> \<not> P (f m)"
  shows "takeWhile P (map f [0..<n]) = map f [0..<m]"
proof -
  have split: "[0..<n] = [0..<m] @ [m..<n]"
    using assms(1) by (metis le_add_diff_inverse upt_add_eq_append zero_le)
  have rest: "takeWhile P (map f [m..<n]) = []"
  proof (cases "m < n")
    case True
    then show ?thesis using assms(3) by (simp add: upt_conv_Cons)
  next
    case False
    then show ?thesis by simp
  qed
  have "takeWhile P (map f [0..<m] @ map f [m..<n]) = map f [0..<m] @ takeWhile P (map f [m..<n])"
    by (rule takeWhile_append2) (use assms(2) in auto)
  then show ?thesis using split rest by simp
qed

lemma searchsorted_grid:
  assumes "m \<le> n" "\<forall>i<m. 1 + real i < v" "m < n \<longrightarrow> \<not> 1 + real m < v"
  shows "searchsorted (map (\<lambda>j. 1 + real j) [0..<n]) v = m"
  unfolding searchsorted_def
  using takeWhile_grid[of m n "\<lambda>x. x < v" "\<lambda>j. 1 + real j", OF assms] by simp

lemma interp_point:
  assumes n: "2 \<le> n" and j: "j < 5 * (n - 1) + 1"
  defines "x \<equiv> map (\<lambda>j. 1 + real j) [0..<n]"
  defines "v \<equiv> 1 + real j * (1 / 5)"
  shows "(let hi = min (length x - 1) (max 1 (searchsorted x v)); lo = hi - 1;
              slope = (y ! hi - y ! lo) / (x ! hi - x ! lo)
          in slope * (v - x ! lo) + y ! lo) =
         (if j mod 5 = 0 then y ! (j div 5)
          else y ! (j div 5) + real (j mod 5) / 5 * (y ! (j div 5 + 1) - y ! (j div 5)))"
proof -
  define k where "k = j div 5"
  define r where "r = j mod 5"
  have jk: "j = 5 * k + r" and r5: "r < 5" by (simp_all add: k_def r_def)
  have v: "v = 1 + real k + real r / 5" by (simp add: v_def jk)
  have lx: "length x = n" by (simp add: x_def)
  have xn: "x ! i = 1 + real i" if "i < n" for i using that by (simp add: x_def)
  show ?thesis
  proof (cases "r = 0")
    case True
    have kn: "k \<le> n - 1" using j jk True by simp
    have ss: "searchsorted x v = k"
      unfolding x_def
      by (rule searchsorted_grid) (use kn n True v in auto)
    show ?thesis
    proof (cases "k = 0")
      case k0: True
      have "min (length x - 1) (max 1 (searchsorted x v)) = 1" using ss k0 lx n by simp
      then show ?thesis
        using True k0 v xn[of 0] xn[of 1] n
        by (simp add: Let_def k_def[symmetric] r_def[symmetric])
    next
      case False
      then have hi: "min (length x - 1) (max 1 (searchsorted x v)) = k" using ss kn lx by simp
      have "x ! k = 1 + real k" "x ! (k - 1) = real k" using xn[of k] xn[of "k - 1"] kn n False
        by (simp_all add: of_nat_diff)
      then show ?thesis
        using True v hi False
        by (simp add: Let_def k_def[symmetric] r_def[symmetric])
    qed
  next
    case False
    have kn: "k + 1 \<le> n - 1" using j jk False by simp
    have ss: "searchsorted x v = k + 1"
      unfolding x_def
    proof (rule searchsorted_grid)
      show "k + 1 \<le> n" using kn by simp
      show "\<forall>i<k + 1. 1 + real i < v" using False v by auto
      show "k + 1 < n \<longrightarrow> \<not> 1 + real (k + 1) < v" using r5 v by auto
    qed
    have hi: "min (length x - 1) (max 1 (searchsorted x v)) = k + 1" using ss kn lx by simp
    have "x ! (k + 1) = 2 + real k" "x ! k = 1 + real k" using xn[of k] xn[of "k + 1"] kn n
      by simp_all
    then show ?thesis
      using False v hi
      by (simp add: Let_def k_def[symmetric] r_def[symmetric])
  qed
qed

lemma new_x_in_range:
  assumes "2 \<le> n"
  shows "\<not> list_ex (\<lambda>v. v < hd (map (\<lambda>j. 1 + real j) [0..<n]) \<or> last (map (\<lambda>j. 1 + real j) [0..<n]) < v)
           (map (\<lambda>j. 1 + real j * (1 / 5)) [0..<5 * (n - 1) + 1])"
proof -
  have ne: "[0..<n] \<noteq> []" using assms by simp
  have h: "hd (map (\<lambda>j. 1 + real j) [0..<n]) = 1"
    using assms by (simp add: hd_map ne hd_upt)
  have l: "last (map (\<lambda>j. 1 + real j) [0..<n]) = real n"
    using assms by (simp add: last_map ne last_upt of_nat_diff)
  have "real j * (1 / 5) \<le> real n - 1" if "j < 5 * (n - 1) + 1" for j
  proof -
    have "j \<le> 5 * (n - 1)" using that by simp
    then have "real j \<le> real (5 * (n - 1))" by (simp only: of_nat_le_iff)
    then show ?thesis using assms by (simp add: of_nat_diff)
  qed
  then show ?thesis unfolding h l list_ex_iff by fastforce
qed

lemma interpolate_upsample:
  assumes "length p = length L" "2 \<le> length L"
  shows "interpolate L p = Inr (upsample p)"
proof -
  let ?n = "length L"
  let ?x = "map (\<lambda>j. 1 + real j) [0..<?n]"
  let ?new = "map (\<lambda>j. 1 + real j * (1 / 5)) [0..<5 * (?n - 1) + 1]"
  have a1: "arange 1 (real ?n + 1) 1 = ?x" by (rule arange_unit)
  have a2: "arange 1 (real ?n + 1 / 5) (1 / 5) = ?new"
    by (rule arange_fifth) (use assms(2) in simp)
  have "interpolate L p = interp1d ?x p ?new"
    by (simp only: interpolate_def Let_def interp_factor_def a1 a2)
  also have "\<dots> = Inr (map (\<lambda>v.
             let hi = min (length ?x - 1) (max 1 (searchsorted ?x v)); lo = hi - 1;
                 slope = (p ! hi - p ! lo) / (?x ! hi - ?x ! lo)
             in slope * (v - ?x ! lo) + p ! lo) ?new)"
    unfolding interp1d_def using assms new_x_in_range[OF assms(2)] by simp
  also have "\<dots> = Inr (upsample p)"
  proof -
    have "map ((\<lambda>v.
             let hi = min (length ?x - 1) (max 1 (searchsorted ?x v)); lo = hi - 1;
                 slope = (p ! hi - p ! lo) / (?x ! hi - ?x ! lo)
             in slope * (v - ?x ! lo) + p ! lo) \<circ> (\<lambda>j. 1 + real j * (1 / 5)))
            [0..<5 * (?n - 1) + 1] = upsample p"
      unfolding upsample_def assms(1)
    proof (rule map_cong[OF refl])
      fix j assume "j \<in> set [0..<5 * (?n - 1) + 1]"
      then have "j < 5 * (?n - 1) + 1" by (simp only: set_upt atLeastLessThan_iff)
      from interp_point[OF assms(2) this, of p]
      show "((\<lambda>v.
             let hi = min (length ?x - 1) (max 1 (searchsorted ?x v)); lo = hi - 1;
                 slope = (p ! hi - p ! lo) / (?x ! hi - ?x ! lo)
             in slope * (v - ?x ! lo) + p ! lo) \<circ> (\<lambda>j. 1 + real j * (1 / 5))) j =
           (if j mod 5 = 0 then p ! (j div 5)
            else p ! (j div 5) + real (j mod 5) / 5 * (p ! (j div 5 + 1) - p ! (j div 5)))"
        by (simp only: comp_def)
    qed
    then show ?thesis by (simp only: map_map)
  qed
  finally show ?thesis .
qed


lemma interpolate_error:
  assumes "length p \<noteq> length L \<or> length L < 2"
  shows "interpolate L p = Inl ValueError"
proof -
  have "length (arange 1 (real (length L) + 1) 1) = length L" by (simp add: arange_unit)
  then show ?thesis using assms by (auto simp: interpolate_def Let_def interp1d_def)
qed










section \<open>The abscissae in double precision\<close>


















section \<open>The measurement on the example profiles\<close>

lemmas upt_num = upt_rec[where j="numeral n" for n]

lemma replicate_num: "replicate (numeral k) x = x # replicate (pred_numeral k) x"
  by (simp add: numeral_eq_Suc)

lemma ex_upsample_L:
  "upsample ex_L = [6, 28 / 5, 26 / 5, 24 / 5, 22 / 5, 4, 26 / 5, 32 / 5, 38 / 5, 44 / 5, 10,
     10, 10, 10, 10, 10, 44 / 5, 38 / 5, 32 / 5, 26 / 5, 4, 4, 4, 4, 4, 4]"
  by (simp add: upsample_def ex_L_def upt_num)

lemma ex_upsample_R:
  "upsample ex_R = [6, 28 / 5, 26 / 5, 24 / 5, 22 / 5, 4, 4, 4, 4, 4, 4, 26 / 5, 32 / 5,
     38 / 5, 44 / 5, 10, 10, 10, 10, 10, 10, 44 / 5, 38 / 5, 32 / 5, 26 / 5, 4]"
  by (simp add: upsample_def ex_R_def upt_num)

lemma ex_peaks:
  "find_n_highest_peaks [0, 0, 0, 0, 0, 0, 6 / 5, 12 / 5, 18 / 5, 24 / 5, 6, 24 / 5, 18 / 5,
     12 / 5, 6 / 5, 0, 6 / 5, 12 / 5, 18 / 5, 24 / 5, 6, 24 / 5, 18 / 5, 12 / 5, 6 / 5, 0]
     (Suc 0) (Some 3) = [10]"
  by (simp add: find_n_highest_peaks_def local_maxima_def upt_num)

lemma ex_static:
  "static_lines find_n_highest_peaks ex_L ex_R =
     Inr (1, [6, 28 / 5, 26 / 5, 24 / 5, 22 / 5, 4, 26 / 5, 32 / 5, 38 / 5, 44 / 5, 10,
              10, 10, 10, 10, 10, 44 / 5, 38 / 5, 32 / 5, 26 / 5],
             [6, 28 / 5, 26 / 5, 24 / 5, 22 / 5, 4, 4, 4, 4, 4, 4, 26 / 5, 32 / 5,
              38 / 5, 44 / 5, 10, 10, 10, 10, 10])"
proof -
  have l: "length ex_R = length ex_L" "2 \<le> length ex_L" by (simp_all add: ex_L_def ex_R_def)
  show ?thesis
    unfolding static_lines_def interpolate_upsample[OF refl l(2)] interpolate_upsample[OF l]
      ex_upsample_L ex_upsample_R
    by (simp add: ex_peaks py_slice_def slice_bound_def Let_def)
qed

lemma ex_errs:
  "lag_errors [6, 28 / 5, 26 / 5, 24 / 5, 22 / 5, 4, 4, 4, 4, 4, 4, 26 / 5, 32 / 5,
              38 / 5, 44 / 5, 10, 10, 10, 10, 10]
             [6, 28 / 5, 26 / 5, 24 / 5, 22 / 5, 4, 26 / 5, 32 / 5, 38 / 5, 44 / 5, 10,
              10, 10, 10, 10, 10, 44 / 5, 38 / 5, 32 / 5, 26 / 5] =
   replicate 31 10000000000 @
   [4 / 5, 0, 4 / 5, 8 / 5, 12 / 5, 3, 24 / 7, 15 / 4, 4, 21 / 5, 234 / 55, 41 / 10,
    246 / 65, 117 / 35, 14 / 5, 91 / 40, 156 / 85, 22 / 15, 22 / 19, 10000000000, 94 / 95, 1,
    78 / 85, 29 / 40, 2 / 5, 0, 6 / 13, 1, 18 / 11, 12 / 5, 16 / 5, 39 / 10, 156 / 35,
    24 / 5, 24 / 5, 23 / 5, 22 / 5, 21 / 5, 4] @ replicate 31 10000000000"
  by (simp add: lag_errors_def lags_def ev replicate_num del: not_None_eq)

lemma ex_selected:
  "selected_lag (lag_errors [6, 28 / 5, 26 / 5, 24 / 5, 22 / 5, 4, 4, 4, 4, 4, 4, 26 / 5,
                  32 / 5, 38 / 5, 44 / 5, 10, 10, 10, 10, 10]
             [6, 28 / 5, 26 / 5, 24 / 5, 22 / 5, 4, 26 / 5, 32 / 5, 38 / 5, 44 / 5, 10,
              10, 10, 10, 10, 10, 44 / 5, 38 / 5, 32 / 5, 26 / 5]) = Inr 5"
  unfolding ex_errs
  by (simp add: selected_lag_def first_index_def lags_nth replicate_num)

lemma ex_result: "bar_length_difference find_n_highest_peaks ex_L ex_R res_y = Inr res_y"
  by (simp add: bar_length_difference_def ex_static selected_shift_def ex_selected
      interp_factor_def)

section \<open>Properties of the length difference\<close>

lemma length_py_slice_cong:
  "length xs = length ys \<Longrightarrow> length (py_slice xs lo hi) = length (py_slice ys lo hi)"
  by (simp add: py_slice_def Let_def)

lemma length_py_slice_window: "length (py_slice xs (int p - 10) (int p + 10)) \<le> 20"
  by (auto simp: py_slice_def Let_def slice_bound_def)

lemma length_upsample: "length (upsample p) = 5 * (length p - 1) + 1"
  by (simp add: upsample_def)

lemma static_lines_interpolated:
  assumes "static_lines pf L R = Inr (pos, sL, sR)"
  shows "length R = length L \<and> 2 \<le> length L"
proof (rule ccontr)
  assume "\<not> (length R = length L \<and> 2 \<le> length L)"
  then have "interpolate L L = Inl ValueError \<or> interpolate L R = Inl ValueError"
    using interpolate_error[of L L] interpolate_error[of R L] by auto
  then show False using assms by (auto simp: static_lines_def split: sum.splits)
qed

lemma static_lines_window:
  assumes "static_lines pf L R = Inr (pos, sL, sR)"
  shows "\<exists>p ps mx a b.
             np_max (map abs (map2 (-) (upsample L) (upsample R))) = Inr mx \<and>
             pf (map abs (map2 (-) (upsample L) (upsample R))) 1 (Some (1/2 * mx)) = p # ps \<and>
             sL = py_slice (upsample L) (int p - 10) (int p + 10) \<and>
             sR = py_slice (upsample R) (int p - 10) (int p + 10) \<and>
             np_max (map uminus (py_slice (map2 (-) (upsample L) (upsample R))
                                    (int p - 10) (int p + 10))) = Inr a \<and>
             np_max (py_slice (map2 (-) (upsample L) (upsample R))
                                    (int p - 10) (int p + 10)) = Inr b \<and>
             pos = (if a < b then 1 else - 1)"
proof -
  from static_lines_interpolated[OF assms] have l: "length R = length L" "2 \<le> length L"
    by auto
  define delta where "delta = map2 (-) (upsample L) (upsample R)"
  have sl: "static_lines pf L R =
       (case np_max (map abs delta) of Inl e \<Rightarrow> Inl e | Inr mx \<Rightarrow>
       (case pf (map abs delta) 1 (Some (1/2 * mx)) of [] \<Rightarrow> Inl IndexError | p # _ \<Rightarrow>
         (case np_max (map uminus (py_slice delta (int p - 10) (int p + 10))) of
            Inl e \<Rightarrow> Inl e | Inr a \<Rightarrow>
         (case np_max (py_slice delta (int p - 10) (int p + 10)) of Inl e \<Rightarrow> Inl e | Inr b \<Rightarrow>
            Inr (if a < b then 1 else - 1,
                 py_slice (upsample L) (int p - 10) (int p + 10),
                 py_slice (upsample R) (int p - 10) (int p + 10))))))"
    unfolding static_lines_def interpolate_upsample[OF refl l(2)] interpolate_upsample[OF l]
      delta_def
    by (simp only: sum.case Let_def)
  from assms[unfolded sl] obtain mx where
    mx: "np_max (map abs delta) = Inr mx" by (cases "np_max (map abs delta)") auto
  from assms[unfolded sl mx] obtain p ps where
    p: "pf (map abs delta) 1 (Some (1/2 * mx)) = p # ps"
    by (cases "pf (map abs delta) 1 (Some (1/2 * mx))") auto
  from assms[unfolded sl mx] p obtain a where
    a: "np_max (map uminus (py_slice delta (int p - 10) (int p + 10))) = Inr a"
    by (cases "np_max (map uminus (py_slice delta (int p - 10) (int p + 10)))") auto
  from assms[unfolded sl mx] p a obtain b where
    b: "np_max (py_slice delta (int p - 10) (int p + 10)) = Inr b"
    by (cases "np_max (py_slice delta (int p - 10) (int p + 10))") auto
  from assms[unfolded sl mx] p a b
  have "(pos, sL, sR) = (if a < b then 1 else - 1,
                 py_slice (upsample L) (int p - 10) (int p + 10),
                 py_slice (upsample R) (int p - 10) (int p + 10))"
    by simp
  then show ?thesis using mx p a b unfolding delta_def by blast
qed

lemma static_lines_lengths:
  assumes "static_lines pf L R = Inr (pos, sL, sR)"
  shows "length sL = length sR \<and> length sR \<le> 20"
proof -
  from static_lines_interpolated[OF assms] have l: "length R = length L" by simp
  from static_lines_window[OF assms] obtain p where
    sL: "sL = py_slice (upsample L) (int p - 10) (int p + 10)" and
    sR: "sR = py_slice (upsample R) (int p - 10) (int p + 10)" by blast
  have "length (upsample L) = length (upsample R)" using l by (simp add: length_upsample)
  then show ?thesis
    unfolding sL sR using length_py_slice_cong length_py_slice_window by metis
qed

lemma lag_error_far:
  assumes "length sR \<le> 20"
  shows "lag_error sR sL (- 50) = sentinel"
proof -
  have "slice_bound (length (map2 (-) sR (roll sL (- 50)))) (- 50) = 0"
    using assms by (simp add: slice_bound_def)
  then show ?thesis
    by (simp add: lag_error_def difference_def Let_def set_nan_def list_all_iff)
qed

lemma selected_lag_nonzero:
  assumes "selected_lag (lag_errors sR sL) = Inr l" "length sR \<le> 20"
  shows "l \<noteq> 0"
proof
  assume l0: "l = 0"
  from selected_lag_Inr[OF assms(1) length_lag_errors] obtain temp where
    t: "temp < 101" "l = lags ! temp" and
    first: "\<forall>j<temp. lag_errors sR sL ! j \<noteq> lag_errors sR sL ! temp" by blast
  have t50: "temp = 50" using t l0 by (simp add: lags_nth)
  have "lag_errors sR sL ! 0 = sentinel"
    using lag_error_far[OF assms(2)] by (simp add: lag_errors_nth)
  moreover have "lag_errors sR sL ! 50 = sentinel"
    using lag_error_at_zero[of sR sL] by (simp add: lag_errors_nth)
  ultimately show False using first t50 by auto
qed

lemma sign_of_zero_delta:
  assumes "static_lines pf p p = Inr (pos, sL, sR)"
  shows "pos = - 1"
proof -
  from static_lines_window[OF assms] obtain q qs mx a b where
    a: "np_max (map uminus (py_slice (map2 (-) (upsample p) (upsample p))
                                    (int q - 10) (int q + 10))) = Inr a" and
    b: "np_max (py_slice (map2 (-) (upsample p) (upsample p))
                                    (int q - 10) (int q + 10)) = Inr b" and
    pos: "pos = (if a < b then 1 else - 1)" by blast
  have z: "set (map2 (-) (upsample p) (upsample p)) \<subseteq> {0}"
    by (auto simp: set_zip)
  have w: "set (py_slice (map2 (-) (upsample p) (upsample p)) (int q - 10) (int q + 10)) \<subseteq> {0}"
    unfolding py_slice_def Let_def
    using z set_take_subset set_drop_subset by (meson subset_trans)
  have "b = 0" using np_max_Inr[OF b] w by auto
  moreover have "a = 0" using np_max_Inr[OF a] w by auto
  ultimately show ?thesis using pos by simp
qed

lemma no_peak_in_constant:
  assumes "set data \<subseteq> {c}"
  shows "find_n_highest_peaks data n h = []"
proof -
  have "local_maxima data = []"
    unfolding local_maxima_def filter_empty_conv
  proof
    fix i assume "i \<in> set [1..<length data - 1]"
    then have "i - 1 < length data" "i < length data" by auto
    then have "data ! (i - 1) = c" "data ! i = c" using assms nth_mem by blast+
    then show "\<not> (data ! (i - 1) < data ! i \<and> data ! (i + 1) < data ! i)" by simp
  qed
  then show ?thesis by (simp add: find_n_highest_peaks_def)
qed

lemma identical_no_peak:
  "bar_length_difference find_n_highest_peaks p p res_y =
     Inl (if length p < 2 then ValueError else IndexError)"
proof (cases "length p < 2")
  case True
  then show ?thesis
    using interpolate_error[of p p]
    by (simp add: bar_length_difference_def static_lines_def)
next
  case False
  then have l: "2 \<le> length p" by simp
  define ad where "ad = map abs (map2 (-) (upsample p) (upsample p))"
  have z: "set ad \<subseteq> {0}"
    by (auto simp: ad_def set_zip)
  have ne: "ad \<noteq> []"
    by (simp add: ad_def upsample_def)
  then obtain mx where mx: "np_max ad = Inr mx"
    by (cases ad) auto
  have "static_lines find_n_highest_peaks p p = Inl IndexError"
    unfolding static_lines_def interpolate_upsample[OF refl l]
    by (simp only: sum.case Let_def ad_def[symmetric] mx no_peak_in_constant[OF z] list.case)
  then show ?thesis
    using False by (simp add: bar_length_difference_def)
qed

text \<open>Claim C2, as amended. For identical line profiles the measurement never returns 0
  when \<open>res_y\<close> is not 0: it raises, or it returns \<open>- |lag| * (1/5) * res_y\<close> for a
  selected lag between \<open>-50\<close> and \<open>50\<close> that is not 0. With the peak finder of the
  specification the difference of the profiles, zero everywhere, has no peak and the
  measurement raises.\<close>

theorem identical_profiles_never_zero:
  assumes "res_y \<noteq> 0"
  shows "bar_length_difference pf p p res_y \<noteq> Inr 0 \<and>
         ((\<exists>e. bar_length_difference pf p p res_y = Inl e) \<or>
          (\<exists>l. l \<noteq> 0 \<and> - 50 \<le> l \<and> l \<le> 50 \<and>
               bar_length_difference pf p p res_y = Inr (- (of_int \<bar>l\<bar> * (1 / 5) * res_y)))) \<and>
         bar_length_difference find_n_highest_peaks p p res_y =
           Inl (if length p < 2 then ValueError else IndexError)"
proof -
  have form: "(\<exists>e. bar_length_difference pf p p res_y = Inl e) \<or>
          (\<exists>l. l \<noteq> 0 \<and> - 50 \<le> l \<and> l \<le> 50 \<and>
               bar_length_difference pf p p res_y = Inr (- (of_int \<bar>l\<bar> * (1 / 5) * res_y)))"
  proof (cases "bar_length_difference pf p p res_y")
    case (Inl e)
    then show ?thesis by simp
  next
    case (Inr d)
    from bar_length_difference_Inr[OF Inr] obtain pos sL sR l where
      s: "static_lines pf p p = Inr (pos, sL, sR)" and
      l: "selected_lag (lag_errors sR sL) = Inr l" and
      d: "d = of_int pos * of_int \<bar>if pos = 1 then - l else l\<bar> * (1 / 5) * res_y" by blast
    have pos: "pos = - 1" by (rule sign_of_zero_delta[OF s])
    have nz: "l \<noteq> 0" using selected_lag_nonzero[OF l] static_lines_lengths[OF s] by simp
    have b: "- 50 \<le> l \<and> l \<le> 50" by (rule selected_lag_bounds[OF l length_lag_errors])
    have "d = - (of_int \<bar>l\<bar> * (1 / 5) * res_y)" using d pos by simp
    then show ?thesis using Inr nz b by blast
  qed
  have "bar_length_difference pf p p res_y \<noteq> Inr 0"
  proof
    assume z: "bar_length_difference pf p p res_y = Inr 0"
    with form obtain l where "l \<noteq> 0" "(0::real) = - (of_int \<bar>l\<bar> * (1 / 5) * res_y)" by auto
    then show False using assms by simp
  qed
  then show ?thesis using form identical_no_peak by blast
qed

theorem identical_profiles_never_zero_witness:
  "(1::real) \<noteq> 0 \<and> bar_length_difference find_n_highest_peaks ex_L ex_L 1 = Inl IndexError"
  using identical_profiles_never_zero[of 1 find_n_highest_peaks ex_L]
  by (simp add: ex_L_def)

text \<open>Claim C2 as stated fails: two identical profiles, and no length difference of 0
  is returned.\<close>

theorem identical_profiles_counterexample:
  "bar_length_difference find_n_highest_peaks [0, 10, 0] [0, 10, 0] 1 = Inl IndexError \<and>
   bar_length_difference find_n_highest_peaks [0, 10, 0] [0, 10, 0] 1 \<noteq> Inr 0"
  by (simp add: identical_no_peak)






section \<open>Properties of the wedge search\<close>

lemma round_half_even_upper: "of_int (round_half_even x) \<le> x + 1/2"
  unfolding round_half_even_def Let_def by (auto; linarith)

lemma round_half_even_lower: "x - 1/2 \<le> of_int (round_half_even x)"
  unfolding round_half_even_def Let_def by (auto; linarith)

lemma round_half_even_mono:
  assumes "x \<le> y"
  shows "round_half_even x \<le> round_half_even y"
proof (cases "\<lfloor>x\<rfloor> = \<lfloor>y\<rfloor>")
  case True
  then show ?thesis
    using assms unfolding round_half_even_def Let_def by auto
next
  case False
  then have "\<lfloor>x\<rfloor> + 1 \<le> \<lfloor>y\<rfloor>" using floor_mono[OF assms] by linarith
  moreover have "round_half_even x \<le> \<lfloor>x\<rfloor> + 1"
    unfolding round_half_even_def Let_def by auto
  moreover have "\<lfloor>y\<rfloor> \<le> round_half_even y"
    unfolding round_half_even_def Let_def by auto
  ultimately show ?thesis by linarith
qed

lemma x_pts_le: "fst (x_pts l0 l1) \<le> snd (x_pts l0 l1)"
proof -
  have "(of_int (min l0 l1) :: real) + 1/4 * of_int (max l0 l1 - min l0 l1)
        \<le> of_int (max l0 l1) - 1/4 * of_int (max l0 l1 - min l0 l1)"
    by (cases "l0 \<le> l1") (simp_all add: min_def max_def field_simps)
  then show ?thesis
    unfolding x_pts_def Let_def fst_conv snd_conv by (rule round_half_even_mono)
qed

lemma x_pts_min:
  "x_pts l0 l1 = (let a = min l0 l1; w = max l0 l1 - min l0 l1
                  in (round_half_even (of_int a + of_int w / 4),
                      round_half_even (of_int a + 3 * of_int w / 4)))"
proof -
  have "(of_int (max l0 l1) :: real) - 1/4 * of_int (max l0 l1 - min l0 l1) =
        of_int (min l0 l1) + 3 * of_int (max l0 l1 - min l0 l1) / 4"
    by (cases "l0 \<le> l1") (simp_all add: min_def max_def field_simps)
  then show ?thesis by (simp add: x_pts_def Let_def)
qed

lemma x_pts_strict:
  "(fst (x_pts l0 l1) < snd (x_pts l0 l1)) =
     (l0 \<noteq> l1 \<and> \<not> (\<bar>l1 - l0\<bar> = 2 \<and> odd (min l0 l1)))"
proof -
  define a where "a = min l0 l1"
  define w where "w = max l0 l1 - min l0 l1"
  have w0: "0 \<le> w" and wabs: "w = \<bar>l1 - l0\<bar>" by (simp_all add: w_def min_def max_def)
  have xp: "x_pts l0 l1 = (round_half_even (of_int a + of_int w / 4),
                           round_half_even (of_int a + 3 * of_int w / 4))"
    by (simp add: x_pts_min a_def w_def Let_def)
  consider "w = 0" | "w = 1" | "w = 2" | "3 \<le> w" using w0 by linarith
  then show ?thesis
  proof cases
    case 1
    then show ?thesis using xp wabs by simp
  next
    case 2
    have "round_half_even (of_int a + 1 / 4) = a" "round_half_even (of_int a + 3 / 4) = a + 1"
      by (simp_all add: round_half_even_def Let_def)
    then show ?thesis using xp 2 wabs by auto
  next
    case 3
    have e: "even a \<Longrightarrow> round_half_even (of_int a + 1 / 2) = a \<and>
                 round_half_even (of_int a + 3 / 2) = a + 2"
    proof -
      assume ev: "even a"
      have "\<lfloor>(of_int a :: real) + 3 / 2\<rfloor> = a + 1" by linarith
      then show ?thesis using ev by (simp add: round_half_even_def Let_def)
    qed
    have o: "odd a \<Longrightarrow> round_half_even (of_int a + 1 / 2) = a + 1 \<and>
                 round_half_even (of_int a + 3 / 2) = a + 1"
    proof -
      assume od: "odd a"
      have "\<lfloor>(of_int a :: real) + 3 / 2\<rfloor> = a + 1" by linarith
      then show ?thesis using od by (simp add: round_half_even_def Let_def)
    qed
    show ?thesis using xp 3 wabs e o a_def by (cases "even a") auto
  next
    case 4
    have "(of_int (round_half_even (of_int a + 3 * of_int w / 4)) :: real)
            \<ge> of_int a + 3 * of_int w / 4 - 1/2"
      using round_half_even_lower[of "of_int a + 3 * of_int w / 4"] by simp
    moreover have "(of_int (round_half_even (of_int a + of_int w / 4)) :: real)
            \<le> of_int a + of_int w / 4 + 1/2"
      using round_half_even_upper[of "of_int a + of_int w / 4"] by simp
    moreover have "(3::real) \<le> of_int w" using 4 by (metis of_int_le_iff of_int_numeral)
    ultimately have "(of_int (round_half_even (of_int a + of_int w / 4)) :: real)
            < of_int (round_half_even (of_int a + 3 * of_int w / 4))" by linarith
    then have "round_half_even (of_int a + of_int w / 4)
            < round_half_even (of_int a + 3 * of_int w / 4)" by (simp only: of_int_less_iff)
    then show ?thesis using xp 4 wabs by auto
  qed
qed


text \<open>Unfolding rules for evaluating the wedge search on concrete images.\<close>

lemmas wedge_ev = extent_def col_any_def row_any_def ncols_def first_index_def last_index_def
  invest_x_def invest_y_def investigate_region_def np_index_def masked_def
  profile_line_row_def profile_line_col_def pixel_def span_def mean_profile_def abs_diff_def
  find_n_highest_peaks_def local_maxima_def end_point_def round_half_even_def
  upt_num upto_rec1 Let_def

lemma ex_extent: "extent ex_mask = Inr (0, 5, 0)"
  by (simp add: ex_mask_def wedge_ev numeral_eq_Suc)

lemma ex_x_locs: "x_locs find_n_highest_peaks ex_img ex_mask 35 = Inr (0, 1, 3)"
  unfolding x_locs_def ex_extent
  by (simp add: ex_mask_def ex_img_def wedge_ev)

lemma ex_y_locs: "y_locs find_n_highest_peaks ex_img ex_mask 10 False 0 (2, 2) = Inr (0, 2)"
  unfolding y_locs_def
  by (simp add: ex_mask_def ex_img_def wedge_ev)

lemma ex_find_wedges:
  "find_wedges find_n_highest_peaks False ex_img ex_mask (35, 10) = Inr ((2, 2), (0, 5))"
proof -
  have x: "x_pts 1 3 = (2, 2)" by (simp add: x_pts_def round_half_even_def)
  show ?thesis
    unfolding find_wedges_def fst_conv snd_conv ex_x_locs
    by (simp add: x ex_y_locs y_first_def y_second_def round_half_even_def)
qed


lemma ex_wide_extent: "extent ex_mask_wide = Inr (0, 6, 0)"
  by (simp add: ex_mask_wide_def wedge_ev numeral_eq_Suc)

lemma ex_wide_x_locs: "x_locs find_n_highest_peaks ex_img_wide ex_mask_wide 35 = Inr (0, 1, 4)"
  unfolding x_locs_def ex_wide_extent
  by (simp add: ex_mask_wide_def ex_img_wide_def wedge_ev)

lemma ex_wide_invest_y:
  "invest_y ex_img_wide ex_mask_wide 10 False 0 (2, 3) =
     Inr [[0, 4, 10, 10, 4, 4], [6, 4, 10, 10, 4, 4], [6, 4, 10, 10, 4, 4]]"
  by (simp add: ex_mask_wide_def ex_img_wide_def wedge_ev)

lemma ex_wide_y_locs:
  "y_locs find_n_highest_peaks ex_img_wide ex_mask_wide 10 False 0 (2, 3) = Inr (0, 2)"
  unfolding y_locs_def ex_wide_invest_y
  by (simp add: wedge_ev)

lemma ex_wide_find_wedges:
  "find_wedges find_n_highest_peaks False ex_img_wide ex_mask_wide (35, 10) =
     Inr ((2, 3), (0, 5))"
proof -
  have x: "x_pts 1 4 = (2, 3)" by (simp add: x_pts_def round_half_even_def)
  show ?thesis
    unfolding find_wedges_def fst_conv snd_conv ex_wide_x_locs
    by (simp add: x ex_wide_y_locs y_first_def y_second_def round_half_even_def)
qed

lemma x_locs_extent:
  assumes "x_locs pf img m res_x = Inr (n_point, l0, l1)"
  shows "\<exists>w_point e_point. extent m = Inr (w_point, e_point, n_point)"
  using assms
  by (auto simp: x_locs_def split: sum.splits prod.splits list.splits)

lemma find_wedges_Inr:
  assumes "find_wedges pf MediumACRPhantom img m res = Inr (xp, (y0, y1))"
  shows "\<exists>w_point e_point n_point xl0 xl1 l0 l1.
           extent m = Inr (w_point, e_point, n_point) \<and>
           x_locs pf img m (fst res) = Inr (n_point, xl0, xl1) \<and> xp = x_pts xl0 xl1 \<and>
           y_locs pf img m (snd res) MediumACRPhantom n_point xp = Inr (l0, l1) \<and>
           y0 = y_first n_point (snd res) l0 l1 \<and>
           y1 = y_second MediumACRPhantom n_point (snd res) y0"
proof -
  from assms obtain n_point xl0 xl1 where
    x: "x_locs pf img m (fst res) = Inr (n_point, xl0, xl1)"
    by (auto simp: find_wedges_def split: sum.splits prod.splits)
  from assms x obtain l0 l1 where
    y: "y_locs pf img m (snd res) MediumACRPhantom n_point (x_pts xl0 xl1) = Inr (l0, l1)"
    by (auto simp: find_wedges_def split: sum.splits prod.splits)
  from assms x y have r: "xp = x_pts xl0 xl1" "y0 = y_first n_point (snd res) l0 l1"
    "y1 = y_second MediumACRPhantom n_point (snd res) y0"
    by (auto simp: find_wedges_def Let_def)
  from x_locs_extent[OF x] obtain w_point e_point where
    "extent m = Inr (w_point, e_point, n_point)" by blast
  then show ?thesis using x y r by blast
qed

lemma first_row_signed:
  assumes "find_wedges pf MediumACRPhantom img m res = Inr (xp, (y0, y1))"
  shows "\<exists>w_point e_point n_point l0 l1.
           extent m = Inr (w_point, e_point, n_point) \<and>
           y_locs pf img m (snd res) MediumACRPhantom n_point xp = Inr (l0, l1) \<and>
           y0 = (if of_int (l1 - l0) < 5 / snd res
                 then int n_point + round_half_even (10 / snd res)
                 else round_half_even (of_int (min l0 l1) + 1/4 * \<bar>of_int (l1 - l0)\<bar>))"
proof -
  from find_wedges_Inr[OF assms] obtain w_point e_point n_point l0 l1 where
    e: "extent m = Inr (w_point, e_point, n_point)" and
    y: "y_locs pf img m (snd res) MediumACRPhantom n_point xp = Inr (l0, l1)" and
    y0: "y0 = y_first n_point (snd res) l0 l1" by blast
  show ?thesis using e y y0 unfolding y_first_def by blast
qed

lemma ex_south_extent: "extent ex_mask_tall = Inr (0, 10, 0)"
  by (simp add: ex_mask_tall_def wedge_ev numeral_eq_Suc)

lemma ex_south_x_locs:
  "x_locs find_n_highest_peaks ex_img_south ex_mask_tall 35 = Inr (0, 3, 8)"
  unfolding x_locs_def ex_south_extent
  by (simp add: ex_mask_tall_def ex_img_south_def wedge_ev numeral_eq_Suc)

lemma ex_south_y_locs:
  "y_locs find_n_highest_peaks ex_img_south ex_mask_tall 2 False 0 (4, 7) = Inr (7, 1)"
  unfolding y_locs_def
  by (simp add: ex_mask_tall_def ex_img_south_def wedge_ev numeral_eq_Suc)

lemma ex_south_find_wedges:
  "find_wedges find_n_highest_peaks False ex_img_south ex_mask_tall (35, 2) =
     Inr ((4, 7), (5, 24))"
proof -
  have x: "x_pts 3 8 = (4, 7)" by (simp add: x_pts_def round_half_even_def)
  show ?thesis
    unfolding find_wedges_def fst_conv snd_conv ex_south_x_locs
    by (simp add: x ex_south_y_locs y_first_def y_second_def round_half_even_def)
qed

text \<open>Claim C4. The code departs from the claim when the peak finder returns the
  southern peak first: the two peaks are at the rows 7 and 1, that is 6 rows apart and
  not closer than \<open>5 / res_y = 2.5\<close> rows, so the claim gives the first row
  \<open>round (1 + 0.25 * 6) = 2\<close>; the test of line 192 compares \<open>1 - 7\<close> with \<open>2.5\<close>
  and the code returns the fallback row \<open>0 + round (10 / 2) = 5\<close>.\<close>

theorem far_peaks_take_fallback:
  "y_locs find_n_highest_peaks ex_img_south ex_mask_tall 2 False 0 (4, 7) = Inr (7, 1) \<and>
   find_wedges find_n_highest_peaks False ex_img_south ex_mask_tall (35, 2) =
     Inr ((4, 7), (5, 24)) \<and>
   \<not> \<bar>of_int (1 - 7)\<bar> < (5 / 2 :: real) \<and>
   round_half_even (of_int (min 7 1) + 1/4 * \<bar>of_int (1 - 7)\<bar>) = 2 \<and>
   int 0 + round_half_even (10 / 2) = 5"
  using ex_south_y_locs ex_south_find_wedges by (simp add: round_half_even_def)

lemma collect_Inr: "collect xs = Inr vs \<Longrightarrow> xs = map Inr vs"
  by (induction xs arbitrary: vs) (auto split: sum.splits)

lemma round_half_even_nonneg: "0 \<le> x \<Longrightarrow> 0 \<le> round_half_even x"
  unfolding round_half_even_def Let_def by auto

lemma length_span: "a \<le> b \<Longrightarrow> length (span a b) = nat (b - a + 1)"
  by (simp add: span_def)

lemma invest_y_lengths:
  assumes "invest_y img m res_y MediumACRPhantom n_point xp = Inr cols" "c \<in> set cols"
    "0 < res_y"
  shows "int (length c) = end_point MediumACRPhantom n_point res_y - int n_point + 1"
proof -
  let ?e = "end_point MediumACRPhantom n_point res_y"
  have ge: "int n_point \<le> ?e"
    using assms(3) by (simp add: end_point_def round_half_even_nonneg)
  let ?f = "\<lambda>k. let x_loc = int k - investigate_region 20 res_y div 2
                         + \<lfloor>(of_int (fst xp) + of_int (snd xp)) / (2::real)\<rfloor> in
           (case collect (map (\<lambda>r. case np_index m r of Inl e \<Rightarrow> Inl e
                                     | Inr row \<Rightarrow> np_index row x_loc)
                            [int n_point..?e]) of
              Inl e \<Rightarrow> Inl e
            | Inr c \<Rightarrow> Inr (masked c (profile_line_col img (int n_point) ?e x_loc)))"
  from assms(1) have "map ?f [0..<nat (investigate_region 20 res_y)] = map Inr cols"
    unfolding invest_y_def Let_def by (rule collect_Inr)
  then have "Inr c \<in> set (map ?f [0..<nat (investigate_region 20 res_y)])"
    using assms(2) by simp
  then obtain k where k: "?f k = Inr c" by auto
  then obtain x_loc t where
    t: "collect (map (\<lambda>r. case np_index m r of Inl e \<Rightarrow> Inl e
                                     | Inr row \<Rightarrow> np_index row x_loc)
                            [int n_point..?e]) = Inr t" and
    c: "c = masked t (profile_line_col img (int n_point) ?e x_loc)"
    by (auto simp: Let_def split: sum.splits)
  have "length t = length [int n_point..?e]"
    using collect_Inr[OF t] by (metis length_map)
  then have lt: "length t = nat (?e - int n_point + 1)" by simp
  have lp: "length (profile_line_col img (int n_point) ?e x_loc) = nat (?e - int n_point + 1)"
    using ge by (simp add: profile_line_col_def length_span)
  show ?thesis unfolding c masked_def using lt lp ge by simp
qed

text \<open>Claim C5, as amended. For a positive spacing the expected end row is the northmost
  row plus \<open>round (50 / res_y)\<close> for the standard phantom and the northmost row plus
  \<open>round (35 / res_y)\<close> for the medium phantom, and every vertical profile runs from
  the northmost row to that row.\<close>

theorem end_row:
  assumes "0 < res_y"
  shows "end_point MediumACRPhantom n_point res_y =
           int n_point + round_half_even ((if MediumACRPhantom then 35 else 50) / res_y) \<and>
         (\<forall>cols. invest_y img m res_y MediumACRPhantom n_point xp = Inr cols \<longrightarrow>
            (\<forall>c\<in>set cols.
               int (length c) = end_point MediumACRPhantom n_point res_y - int n_point + 1))"
  using invest_y_lengths[OF _ _ assms] by (auto simp: end_point_def)

theorem end_row_witness:
  "(0::real) < 10 \<and> end_point False 0 10 = 0 + round_half_even (50 / 10) \<and>
   end_point False 0 10 = 5 \<and>
   invest_y ex_img_wide ex_mask_wide 10 False 0 (2, 3) =
     Inr [[0, 4, 10, 10, 4, 4], [6, 4, 10, 10, 4, 4], [6, 4, 10, 10, 4, 4]] \<and>
   int (length [0, 4, 10, 10, 4, 4 :: real]) = end_point False 0 10 - int 0 + 1"
  using end_row[of 10 False 0 ex_img_wide ex_mask_wide "(2, 3)"] ex_wide_invest_y
  by (simp add: end_point_def round_half_even_def)

text \<open>Claim C5 as stated fails for the medium phantom when the northmost row is not 0:
  the end row is \<open>3 + 35\<close>, not \<open>round (35 / 1)\<close>.\<close>

theorem end_row_counterexample:
  "end_point True 3 1 = 38 \<and> round_half_even (35 / 1) = 35 \<and>
   end_point True 3 1 \<noteq> round_half_even (35 / 1)"
  by (simp add: end_point_def round_half_even_def)

text \<open>Claim C6, as amended. When the wedge search returns, the left centre is at most
  the right centre, and it is strictly smaller unless the two detected edges coincide or
  are exactly two columns apart with the smaller one at an odd column.\<close>

theorem wedge_centres_ordered:
  assumes "find_wedges pf MediumACRPhantom img m res = Inr ((x_left, x_right), ys)"
  shows "x_left \<le> x_right \<and>
         (\<exists>n_point l0 l1. x_locs pf img m (fst res) = Inr (n_point, l0, l1) \<and>
            (x_left < x_right) = (l0 \<noteq> l1 \<and> \<not> (\<bar>l1 - l0\<bar> = 2 \<and> odd (min l0 l1))))"
proof -
  obtain y0 y1 where ys: "ys = (y0, y1)" by (cases ys)
  from find_wedges_Inr[OF assms[unfolded ys]] obtain n_point xl0 xl1 where
    x: "x_locs pf img m (fst res) = Inr (n_point, xl0, xl1)" and
    xp: "(x_left, x_right) = x_pts xl0 xl1" by blast
  have l: "x_left = fst (x_pts xl0 xl1)" and r: "x_right = snd (x_pts xl0 xl1)"
    using xp by (metis fst_conv, metis snd_conv)
  show ?thesis
    unfolding l r using x x_pts_le[of xl0 xl1] x_pts_strict[of xl0 xl1] by blast
qed

theorem wedge_centres_ordered_witness:
  "find_wedges find_n_highest_peaks False ex_img_wide ex_mask_wide (35, 10) =
     Inr ((2, 3), (0, 5)) \<and> (2::int) \<le> 3 \<and>
   x_locs find_n_highest_peaks ex_img_wide ex_mask_wide 35 = Inr (0, 1, 4) \<and>
   ((2::int) < 3) = ((1::int) \<noteq> 4 \<and> \<not> (\<bar>4 - 1 :: int\<bar> = 2 \<and> odd (min 1 4 :: int)))"
  using wedge_centres_ordered[OF ex_wide_find_wedges] ex_wide_find_wedges ex_wide_x_locs
  by simp

text \<open>Claim C6 as stated fails: with edges detected at the columns 1 and 3 both centres
  are rounded to column 2.\<close>

theorem wedge_centres_counterexample:
  "find_wedges find_n_highest_peaks False ex_img ex_mask (35, 10) = Inr ((2, 2), (0, 5)) \<and>
   \<not> (2::int) < 2"
  using ex_find_wedges by simp


section \<open>Properties of the measurement of an image\<close>

lemma ex_edge_x_locs: "x_locs find_n_highest_peaks ex_img_edge ex_mask_wide 35 = Inr (0, 1, 4)"
  unfolding x_locs_def ex_wide_extent
  by (simp add: ex_mask_wide_def ex_img_edge_def wedge_ev)

lemma ex_edge_y_locs:
  "y_locs find_n_highest_peaks ex_img_edge ex_mask_wide 10 False 0 (2, 3) = Inr (0, 2)"
  unfolding y_locs_def
  by (simp add: ex_mask_wide_def ex_img_edge_def wedge_ev)

lemma ex_edge_find_wedges:
  "find_wedges find_n_highest_peaks False ex_img_edge ex_mask_wide (35, 10) =
     Inr ((2, 3), (0, 5))"
proof -
  have x: "x_pts 1 4 = (2, 3)" by (simp add: x_pts_def round_half_even_def)
  show ?thesis
    unfolding find_wedges_def fst_conv snd_conv ex_edge_x_locs
    by (simp add: x ex_edge_y_locs y_first_def y_second_def round_half_even_def)
qed

lemma ex_edge_profiles:
  "profile_line_col ex_img_edge 0 5 2 = ex_L" "profile_line_col ex_img_edge 0 5 3 = ex_R"
  by (simp_all add: profile_line_col_def span_def pixel_def ex_img_edge_def ex_L_def ex_R_def
      upto_rec1)

lemma ex_edge_measurement:
  "get_slice_position find_n_highest_peaks False ex_img_edge ex_mask_wide (35, 10) = Inr 10"
  by (simp add: get_slice_position_def ex_edge_find_wedges ex_edge_profiles ex_result)

text \<open>Claim C10. For every measurement that returns, the absolute value of the length
  difference is at most \<open>10 * res_y\<close> (the spacing being positive or zero): the selected
  lag lies between \<open>-50\<close> and \<open>50\<close>, and the result is \<open>pos * |shift| * (1/5) * res_y\<close>.\<close>

theorem length_difference_bound:
  assumes "get_slice_position pf MediumACRPhantom img m res = Inr d" "0 \<le> snd res"
  shows "\<bar>d\<bar> \<le> 10 * snd res"
proof -
  from assms(1) obtain line_prof_L line_prof_R where
    "bar_length_difference pf line_prof_L line_prof_R (snd res) = Inr d"
    by (auto simp: get_slice_position_def split: sum.splits prod.splits)
  then show ?thesis using assms(2) by (rule bar_length_difference_bound)
qed

theorem length_difference_bound_witness:
  "get_slice_position find_n_highest_peaks False ex_img_edge ex_mask_wide (35, 10) = Inr 10 \<and>
   (0::real) \<le> snd (35, 10) \<and> \<bar>10 :: real\<bar> \<le> 10 * snd (35 :: real, 10 :: real)"
  using length_difference_bound[OF ex_edge_measurement] ex_edge_measurement by simp

section \<open>Properties of the task\<close>

lemma run_two:
  assumes "series \<noteq> []"
  shows "run gsp str img_desc series =
     (case gsp (hd series) of
        Inl e \<Rightarrow> ([Message (could_not (img_desc (hd series)) (str e)), Traceback e],
                  Inl (Exception (str e)))
      | Inr r0 \<Rightarrow>
         (case gsp (last series) of
            Inl e \<Rightarrow> ([Message (could_not (img_desc (last series)) (str e)), Traceback e],
                      Inl (Exception (str e)))
          | Inr r1 \<Rightarrow>
              ([], Inr \<lparr>files = [img_desc (hd series), img_desc (last series)],
                       measurement = [img_desc (hd series) \<mapsto> round2 r0,
                                      img_desc (last series) \<mapsto> round2 r1]\<rparr>)))"
  using assms by (cases series) (auto simp: run_def Let_def split: sum.splits)

text \<open>Claim C8. Over the two selected slices of a series (their descriptions being
  different unless they are the same slice): if a measurement raises, the task prints the
  failure with the description of that image and the text of the error, and raises an
  exception with that text, returning no results; if no measurement raises, the entry of
  each image holds its length difference rounded to two decimal places.\<close>

theorem run_outcome:
  assumes "series \<noteq> []" "inj_on img_desc {hd series, last series}"
  shows "((\<exists>d\<in>{hd series, last series}. \<exists>e. gsp d = Inl e) \<longrightarrow>
            (\<exists>d e. d \<in> {hd series, last series} \<and> gsp d = Inl e \<and>
               run gsp str img_desc series =
                 ([Message (''Could not calculate the bar length difference for '' @ img_desc d
                            @ '' because of : '' @ str e), Traceback e],
                  Inl (Exception (str e))))) \<and>
         ((\<forall>d\<in>{hd series, last series}. \<exists>r. gsp d = Inr r) \<longrightarrow>
            (\<exists>res. run gsp str img_desc series = ([], Inr res) \<and>
               (\<forall>d\<in>{hd series, last series}. \<forall>r. gsp d = Inr r \<longrightarrow>
                  measurement res (img_desc d) = Some (round2 r))))"
proof (intro conjI impI)
  assume "\<exists>d\<in>{hd series, last series}. \<exists>e. gsp d = Inl e"
  then consider e where "gsp (hd series) = Inl e"
    | r e where "gsp (hd series) = Inr r" "gsp (last series) = Inl e"
    by (cases "gsp (hd series)") auto
  then show "\<exists>d e. d \<in> {hd series, last series} \<and> gsp d = Inl e \<and>
               run gsp str img_desc series =
                 ([Message (''Could not calculate the bar length difference for '' @ img_desc d
                            @ '' because of : '' @ str e), Traceback e],
                  Inl (Exception (str e)))"
  proof cases
    case 1
    then have "run gsp str img_desc series =
       ([Message (''Could not calculate the bar length difference for '' @ img_desc (hd series)
                            @ '' because of : '' @ str e), Traceback e], Inl (Exception (str e)))"
      by (simp add: run_two[OF assms(1)] could_not_def)
    then show ?thesis using 1 by blast
  next
    case 2
    then have "run gsp str img_desc series =
       ([Message (''Could not calculate the bar length difference for '' @ img_desc (last series)
                            @ '' because of : '' @ str e), Traceback e], Inl (Exception (str e)))"
      by (simp add: run_two[OF assms(1)] could_not_def)
    then show ?thesis using 2 by blast
  qed
next
  assume "\<forall>d\<in>{hd series, last series}. \<exists>r. gsp d = Inr r"
  then obtain r0 r1 where r: "gsp (hd series) = Inr r0" "gsp (last series) = Inr r1" by auto
  let ?res = "\<lparr>files = [img_desc (hd series), img_desc (last series)],
                       measurement = [img_desc (hd series) \<mapsto> round2 r0,
                                      img_desc (last series) \<mapsto> round2 r1]\<rparr>"
  have run: "run gsp str img_desc series = ([], Inr ?res)"
    using r by (simp add: run_two[OF assms(1)])
  have same: "hd series = last series" if "img_desc (hd series) = img_desc (last series)"
    by (rule inj_onD[OF assms(2) that]) simp_all
  have m1: "measurement ?res (img_desc (last series)) = Some (round2 r1)" by simp
  have m0: "measurement ?res (img_desc (hd series)) = Some (round2 r0)"
  proof (cases "img_desc (hd series) = img_desc (last series)")
    case True
    then have "r0 = r1" using same r by simp
    then show ?thesis using True by simp
  next
    case False
    then show ?thesis by simp
  qed
  have "\<forall>d\<in>{hd series, last series}. \<forall>r. gsp d = Inr r \<longrightarrow>
                  measurement ?res (img_desc d) = Some (round2 r)"
  proof (intro ballI allI impI)
    fix d r assume d: "d \<in> {hd series, last series}" and g: "gsp d = Inr r"
    from d consider "d = hd series" | "d = last series" by blast
    then show "measurement ?res (img_desc d) = Some (round2 r)"
    proof cases
      case 1
      then have "r = r0" using g r by simp
      then show ?thesis using 1 m0 by (simp only:)
    next
      case 2
      then have "r = r1" using g r by simp
      then show ?thesis using 2 m1 by (simp only:)
    qed
  qed
  then show "\<exists>res. run gsp str img_desc series = ([], Inr res) \<and>
               (\<forall>d\<in>{hd series, last series}. \<forall>r. gsp d = Inr r \<longrightarrow>
                  measurement res (img_desc d) = Some (round2 r))"
    using run by blast
qed

lemma ex_inj: "inj_on ex_desc {hd [0, 5, 10], last [0, 5, 10::nat]}"
  by (simp add: inj_on_def ex_desc_def)

lemma ex_round2: "round2 (1233 / 1000) = 123 / 100" "round2 (- (787 / 1000)) = - (79 / 100)"
  by (simp_all add: round2_def round_half_even_def)

theorem run_outcome_witness:
  "[0, 5, 10::nat] \<noteq> [] \<and> inj_on ex_desc {hd [0, 5, 10], last [0, 5, 10::nat]} \<and>
   ex_measure_fail 10 = Inl IndexError \<and>
   run ex_measure_fail ex_text ex_desc [0, 5, 10] =
     ([Message ''Could not calculate the bar length difference for ACR_1_11 because of : index 0 is out of bounds'',
       Traceback IndexError], Inl (Exception ''index 0 is out of bounds'')) \<and>
   (\<exists>res. run ex_measure_ok ex_text ex_desc [0, 5, 10] = ([], Inr res) \<and>
      measurement res ''ACR_1_1'' = Some (123 / 100) \<and>
      measurement res ''ACR_1_11'' = Some (- (79 / 100)))"
proof -
  have ne: "[0, 5, 10::nat] \<noteq> []" by simp
  have f: "\<exists>d\<in>{hd [0, 5, 10], last [0, 5, 10::nat]}. \<exists>e. ex_measure_fail d = Inl e"
    by (simp add: ex_measure_fail_def)
  have ok: "\<forall>d\<in>{hd [0, 5, 10], last [0, 5, 10::nat]}. \<exists>r. ex_measure_ok d = Inr r"
    unfolding ex_measure_ok_def by blast
  from run_outcome[OF ne ex_inj, of ex_measure_fail ex_text, THEN conjunct1, THEN mp, OF f]
  have a: "run ex_measure_fail ex_text ex_desc [0, 5, 10] =
     ([Message ''Could not calculate the bar length difference for ACR_1_11 because of : index 0 is out of bounds'',
       Traceback IndexError], Inl (Exception ''index 0 is out of bounds''))"
    by (auto simp: ex_measure_fail_def ex_desc_def ex_text_def)
  from run_outcome[OF ne ex_inj, of ex_measure_ok ex_text, THEN conjunct2, THEN mp, OF ok]
  obtain res where res: "run ex_measure_ok ex_text ex_desc [0, 5, 10] = ([], Inr res)"
    "\<forall>d\<in>{hd [0, 5, 10], last [0, 5, 10::nat]}. \<forall>r. ex_measure_ok d = Inr r \<longrightarrow>
        measurement res (ex_desc d) = Some (round2 r)" by blast
  have "measurement res ''ACR_1_1'' = Some (123 / 100)"
    using res(2)[rule_format, of 0 "1233 / 1000"]
    by (simp add: ex_measure_ok_def ex_desc_def ex_round2)
  moreover have "measurement res ''ACR_1_11'' = Some (- (79 / 100))"
    using res(2)[rule_format, of 10 "- (787 / 1000)"]
    by (simp add: ex_measure_ok_def ex_desc_def ex_round2)
  ultimately show ?thesis
    using ne ex_inj a res(1) by (simp add: ex_measure_fail_def)
qed


end
